theory Spec2Isabelle
  imports Complex_Main
begin

section \<open>Python values used by the tools\<close>

text \<open>
  An exception is modelled by its class name and its message; \<open>str(e)\<close> is the message.
\<close>

datatype exn = Exn (exn_type: string) (exn_msg: string)

text \<open>
  The value \<open>json.load\<close> returns. A dict is the list of its items (keys distinct); a float
  is kept as the rational it denotes, which is all that truth testing needs.
\<close>

datatype json =
    JNull
  | JBool bool
  | JInt int
  | JFloat rat
  | JStr string
  | JArr "json list"
  | JObj "(string \<times> json) list"

text \<open>Python truth testing (\<open>if x:\<close>, \<open>not x\<close>).\<close>

fun truthy :: "json \<Rightarrow> bool" where
  "truthy JNull = False"
| "truthy (JBool b) = b"
| "truthy (JInt n) = (n \<noteq> 0)"
| "truthy (JFloat q) = (q \<noteq> 0)"
| "truthy (JStr s) = (s \<noteq> [])"
| "truthy (JArr xs) = (xs \<noteq> [])"
| "truthy (JObj kv) = (kv \<noteq> [])"

fun type_name :: "json \<Rightarrow> string" where
  "type_name JNull = ''NoneType''"
| "type_name (JBool b) = ''bool''"
| "type_name (JInt n) = ''int''"
| "type_name (JFloat q) = ''float''"
| "type_name (JStr s) = ''str''"
| "type_name (JArr xs) = ''list''"
| "type_name (JObj kv) = ''dict''"

definition squote :: string where
  "squote = [CHR 0x27]"

definition dquote :: string where
  "dquote = [CHR 0x22]"

text \<open>\<open>d.get(key, default)\<close>: only a dict has the method.\<close>

definition py_get :: "json \<Rightarrow> string \<Rightarrow> json \<Rightarrow> exn + json" where
  "py_get d key dflt =
     (case d of
        JObj kv \<Rightarrow> Inr (case map_of kv key of Some v \<Rightarrow> v | None \<Rightarrow> dflt)
      | _ \<Rightarrow> Inl (Exn ''AttributeError''
                 (squote @ type_name d @ squote @ '' object has no attribute '' @
                  squote @ ''get'' @ squote)))"

text \<open>
  \<open>for x in v\<close>: a list yields its elements, a string its characters, a dict its keys;
  nothing else is iterable.
\<close>

definition py_iter :: "json \<Rightarrow> exn + json list" where
  "py_iter v =
     (case v of
        JArr xs \<Rightarrow> Inr xs
      | JStr s \<Rightarrow> Inr (map (\<lambda>c. JStr [c]) s)
      | JObj kv \<Rightarrow> Inr (map (\<lambda>p. JStr (fst p)) kv)
      | _ \<Rightarrow> Inl (Exn ''TypeError''
                 (squote @ type_name v @ squote @ '' object is not iterable'')))"

text \<open>
  Formatting a value inside an f-string: a string is inserted as it is; the text Python
  prints for any other value is the parameter \<open>str_of\<close>.
\<close>

definition fstr :: "(json \<Rightarrow> string) \<Rightarrow> json \<Rightarrow> string" where
  "fstr str_of v = (case v of JStr s \<Rightarrow> s | _ \<Rightarrow> str_of v)"

definition nl :: char where
  "nl = CHR 0x0A"

text \<open>\<open>s.count('\n')\<close>\<close>

definition count_nl :: "string \<Rightarrow> nat" where
  "count_nl s = length (filter (\<lambda>c. c = nl) s)"

text \<open>
  \<open>str.isspace\<close> on one character, for the code points below 256: tab to carriage
  return, the four separators 28 to 31, space, NEL and the no-break space.
\<close>

definition is_space :: "char \<Rightarrow> bool" where
  "is_space c = (of_char c \<in> {9, 10, 11, 12, 13, 28, 29, 30, 31, 32, 133, 160 :: nat})"

text \<open>\<open>bool(s.strip())\<close>: something is left after stripping white space.\<close>

definition strip_nonempty :: "string \<Rightarrow> bool" where
  "strip_nonempty s = (\<exists>c \<in> set s. \<not> is_space c)"

section \<open>VS Code chat export: building the blocks\<close>

text \<open>
  Lines 86 to 91 of \<open>ai_agent_tool_vscode_handover.py\<close>: the values of the response parts
  are appended to one string; a falsy value is skipped, a truthy value that is not a
  string makes \<open>+=\<close> raise.
\<close>

fun coalesce :: "json list \<Rightarrow> string \<Rightarrow> exn + string" where
  "coalesce [] full_response_text = Inr full_response_text"
| "coalesce (resp # responses) full_response_text =
     (case py_get resp ''value'' (JStr []) of
        Inl e \<Rightarrow> Inl e
      | Inr val \<Rightarrow>
          if truthy val then
            (case val of
               JStr s \<Rightarrow> coalesce responses (full_response_text @ s)
             | _ \<Rightarrow> Inl (Exn ''TypeError''
                        (''can only concatenate str (not '' @ dquote @ type_name val @
                         dquote @ '') to str'')))
          else coalesce responses full_response_text)"

definition user_heading :: string where
  "user_heading = [nl, nl] @ ''## User'' @ [nl]"

definition assistant_heading :: string where
  "assistant_heading = [nl, nl] @ ''## Assistant'' @ [nl]"

definition separator :: string where
  "separator = [nl, nl] @ ''---''"

text \<open>Lines 81 to 97: the block of one request.\<close>

definition make_block :: "(json \<Rightarrow> string) \<Rightarrow> json \<Rightarrow> exn + string" where
  "make_block str_of req =
     (case py_get req ''message'' (JObj []) of
        Inl e \<Rightarrow> Inl e
      | Inr m \<Rightarrow>
     (case py_get m ''text'' (JStr []) of
        Inl e \<Rightarrow> Inl e
      | Inr message \<Rightarrow>
     (case py_get req ''response'' (JArr []) of
        Inl e \<Rightarrow> Inl e
      | Inr responses \<Rightarrow>
     (case py_iter responses of
        Inl e \<Rightarrow> Inl e
      | Inr resps \<Rightarrow>
     (case coalesce resps [] of
        Inl e \<Rightarrow> Inl e
      | Inr full_response_text \<Rightarrow>
          Inr (user_heading @ fstr str_of message @
               (if full_response_text \<noteq> [] \<and> strip_nonempty full_response_text
                then assistant_heading @ full_response_text else []) @
               separator))))))"

text \<open>Lines 79 to 97: one block per request, in order; the first exception ends the loop.\<close>

fun build_blocks :: "(json \<Rightarrow> string) \<Rightarrow> json list \<Rightarrow> exn + string list" where
  "build_blocks str_of [] = Inr []"
| "build_blocks str_of (req # reqs) =
     (case make_block str_of req of
        Inl e \<Rightarrow> Inl e
      | Inr b \<Rightarrow>
          (case build_blocks str_of reqs of
             Inl e \<Rightarrow> Inl e
           | Inr bs \<Rightarrow> Inr (b # bs)))"

section \<open>VS Code chat export: splitting the blocks into chunks\<close>

text \<open>Line 99: \<open>sum(b.count('\n') for b in blocks)\<close>\<close>

definition total_lines :: "string list \<Rightarrow> nat" where
  "total_lines blocks = sum_list (map count_nl blocks)"

text \<open>
  Lines 122 to 136, the loop of the chunk mode. The arguments after the blocks still to
  come are \<open>current_chunk_idx\<close>, \<open>current_lines\<close> and \<open>current_blocks\<close>; the result lists
  the calls \<open>flush_chunk(idx, blks)\<close> in the order the loop makes them. \<open>flush_chunk\<close> only
  writes a file and gives its name, which the loop appends to \<open>created_files\<close>: the
  variables that steer the loop do not depend on it. An exception it raises ends the
  export; the writing, and where it stops, is \<open>write_chunks\<close> below.
\<close>

fun chunk_loop :: "int \<Rightarrow> string list \<Rightarrow> nat \<Rightarrow> nat \<Rightarrow> string list \<Rightarrow> (nat \<times> string list) list" where
  "chunk_loop chunk_size [] current_chunk_idx current_lines current_blocks =
     (if current_blocks \<noteq> [] then [(current_chunk_idx, current_blocks)] else [])"
| "chunk_loop chunk_size (block # rest) current_chunk_idx current_lines current_blocks =
     (if int (current_lines + count_nl block) > chunk_size \<and> current_lines > 0
      then (current_chunk_idx, current_blocks) #
             chunk_loop chunk_size rest (current_chunk_idx + 1) (count_nl block) [block]
      else chunk_loop chunk_size rest current_chunk_idx
             (current_lines + count_nl block) (current_blocks @ [block]))"

text \<open>
  Where a chunk is written: the output file itself in the single file mode, the numbered
  part file \<open>idx\<close> in the chunk mode.
\<close>

datatype target = Plain | Part nat

text \<open>Lines 99 to 136: the files to write, each with the blocks it receives.\<close>

definition split_blocks :: "int \<Rightarrow> string list \<Rightarrow> (target \<times> string list) list" where
  "split_blocks chunk_size blocks =
     (if int (total_lines blocks) \<le> chunk_size then [(Plain, blocks)]
      else map (\<lambda>(idx, blks). (Part idx, blks)) (chunk_loop chunk_size blocks 1 0 []))"

definition chunks_of :: "int \<Rightarrow> string list \<Rightarrow> string list list" where
  "chunks_of chunk_size blocks = map snd (split_blocks chunk_size blocks)"


section \<open>VS Code chat export: writing the files\<close>

text \<open>
  The attributes of \<open>output_file\<close> the export reads (\<open>name\<close> is \<open>stem + suffix\<close>), and a
  file the export creates, named by its directory and its file name.
\<close>

record out_path =
  parent :: string
  stem :: string
  suffix :: string

record file_path =
  dir :: string
  fname :: string

text \<open>\<open>str(n)\<close> of a natural number, and the format \<open>{idx:03d}\<close>.\<close>

fun digits :: "nat \<Rightarrow> string" where
  "digits n =
     (if n < 10 then [char_of (48 + n)]
      else digits (n div 10) @ [char_of (48 + n mod 10)])"

declare digits.simps [simp del]

definition fmt_03d :: "nat \<Rightarrow> string" where
  "fmt_03d idx = replicate (3 - length (digits idx)) (CHR ''0'') @ digits idx"

definition plain_file :: "out_path \<Rightarrow> file_path" where
  "plain_file output_file = \<lparr>dir = parent output_file, fname = stem output_file @ suffix output_file\<rparr>"

text \<open>Line 116: the name of part \<open>idx\<close>.\<close>

definition part_file :: "out_path \<Rightarrow> nat \<Rightarrow> file_path" where
  "part_file output_file idx =
     \<lparr>dir = parent output_file,
      fname = stem output_file @ ''_part'' @ fmt_03d idx @ suffix output_file\<rparr>"

fun target_file :: "out_path \<Rightarrow> target \<Rightarrow> file_path" where
  "target_file output_file Plain = plain_file output_file"
| "target_file output_file (Part idx) = part_file output_file idx"

text \<open>
  What the export takes from outside: the outcome of opening and parsing \<open>json_path\<close>
  (lines 71 and 72), \<open>json_path.name\<close>, the text Python prints for a JSON value that is
  not a string, the text of \<open>datetime.now()\<close> at its \<open>k\<close>-th call, and whether opening a
  file for writing raises.
\<close>

record export_env =
  load_json :: "exn + json"
  json_name :: string
  str_of :: "json \<Rightarrow> string"
  now :: "nat \<Rightarrow> string"
  open_w :: "file_path \<Rightarrow> exn option"

text \<open>Lines 103 and 117: the header of a file.\<close>

fun header :: "export_env \<Rightarrow> target \<Rightarrow> nat \<Rightarrow> string" where
  "header env Plain k =
     ''# VS Code Chat History (Auto-Extracted)'' @ [nl] @ ''Source: '' @ json_name env @ [nl] @
     ''Date: '' @ now env k @ [nl] @ ''---''"
| "header env (Part idx) k =
     ''# VS Code Chat History (Part '' @ digits idx @ '')'' @ [nl] @ ''Source: '' @ json_name env @
     [nl] @ ''Date: '' @ now env k @ [nl] @ ''---'' @ [nl]"

text \<open>
  Lines 104 to 106 and 115 to 120, for each chunk in turn: the file is opened, written and
  appended to \<open>created_files\<close>. The result is \<open>created_files\<close>, the files written (path and
  text) and the exception that ended the writing, if one did; the files written before it
  stay on disk.
\<close>

fun write_chunks ::
  "export_env \<Rightarrow> out_path \<Rightarrow> (target \<times> string list) list \<Rightarrow> nat \<Rightarrow>
   file_path list \<times> (file_path \<times> string) list \<times> exn option" where
  "write_chunks env output_file [] k = ([], [], None)"
| "write_chunks env output_file ((t, blks) # rest) k =
     (case open_w env (target_file output_file t) of
        Some e \<Rightarrow> ([], [], Some e)
      | None \<Rightarrow>
          (case write_chunks env output_file rest (k + 1) of
             (created, written, r) \<Rightarrow>
               (target_file output_file t # created,
                (target_file output_file t, header env t k @ concat blks) # written, r)))"

record export_result =
  created_files :: "file_path list"
  files :: "(file_path \<times> string) list"
  printed :: "string list"

text \<open>
  The body of \<open>try\<close> in \<open>VSCodeChatExtractor.export_to_markdown\<close>, lines 71 to 138: the
  files it has written, and either the exception that left it or the list it returns.
\<close>

definition export_body ::
  "export_env \<Rightarrow> out_path \<Rightarrow> int \<Rightarrow> (file_path \<times> string) list \<times> (exn + file_path list)" where
  "export_body env output_file chunk_size =
     (case load_json env of
        Inl e \<Rightarrow> ([], Inl e)
      | Inr data \<Rightarrow>
     (case py_get data ''requests'' (JArr []) of
        Inl e \<Rightarrow> ([], Inl e)
      | Inr requests \<Rightarrow>
          if \<not> truthy requests then ([], Inr [])
          else
     (case py_iter requests of
        Inl e \<Rightarrow> ([], Inl e)
      | Inr reqs \<Rightarrow>
     (case build_blocks (str_of env) reqs of
        Inl e \<Rightarrow> ([], Inl e)
      | Inr blocks \<Rightarrow>
     (case write_chunks env output_file (split_blocks chunk_size blocks) 0 of
        (created, written, Some e) \<Rightarrow> (written, Inl e)
      | (created, written, None) \<Rightarrow> (written, Inr created))))))"

text \<open>Lines 139 to 141: the handler of \<open>export_to_markdown\<close>.\<close>

definition export_failed :: "exn \<Rightarrow> (file_path \<times> string) list \<Rightarrow> export_result" where
  "export_failed e written =
     \<lparr>created_files = [], files = written, printed = [''Failed to export chat: '' @ exn_msg e]\<rparr>"

text \<open>
  \<open>VSCodeChatExtractor.export_to_markdown\<close>, lines 67 to 141: the body runs inside \<open>try\<close>,
  and \<open>except Exception\<close> takes every exception that leaves it.
\<close>

definition export_to_markdown :: "export_env \<Rightarrow> out_path \<Rightarrow> int \<Rightarrow> export_result" where
  "export_to_markdown env output_file chunk_size =
     (case export_body env output_file chunk_size of
        (written, Inl e) \<Rightarrow> export_failed e written
      | (written, Inr created) \<Rightarrow> \<lparr>created_files = created, files = written, printed = []\<rparr>)"

definition default_chunk_size :: int where
  "default_chunk_size = 500"

section \<open>Processes\<close>

text \<open>
  What a tool leaves behind: its exit status and the lines it printed on the error stream.
  A \<open>main\<close> that returns ends the process with status 0; \<open>sys.exit(1)\<close> ends it with
  status 1. Standard output is not modelled for the \<open>main\<close> functions.
\<close>

record proc =
  exit_code :: int
  stderr :: "string list"



text \<open>
  What the interpreter and \<open>argparse\<close> add, taken from outside because their texts are not
  in the source: the lines of the traceback printed for an exception that leaves \<open>main\<close>;
  the usage and error lines \<open>argparse\<close> prints for the command line when it rejects it; and
  the exceptions raised for an operation a value does not support: \<open>v[key]\<close> on a value
  that is not a dict, \<open>len(v)\<close>, \<open>v[a:b]\<close> on a dict, and \<open>format(v, '<40')\<close> on \<open>None\<close>, a
  list or a dict.
\<close>

record interp =
  traceback :: "exn \<Rightarrow> string list"
  usage_error :: "string list"
  index_error :: "json \<Rightarrow> string \<Rightarrow> exn"
  len_error :: "json \<Rightarrow> exn"
  slice_error :: "json \<Rightarrow> int \<Rightarrow> int \<Rightarrow> exn"
  format_error :: "json \<Rightarrow> exn"

text \<open>
  An exception that leaves \<open>main\<close> ends the process with status 1 after its traceback;
  \<open>parser.parse_args()\<close> ends it with status 2 after the usage lines when it rejects the
  command line.
\<close>

definition uncaught :: "interp \<Rightarrow> exn \<Rightarrow> proc" where
  "uncaught it e = \<lparr>exit_code = 1, stderr = traceback it e\<rparr>"



text \<open>\<open>v[key]\<close> with a string key: the value of a dict, \<open>KeyError\<close> for a key it lacks.\<close>

definition py_index :: "interp \<Rightarrow> json \<Rightarrow> string \<Rightarrow> exn + json" where
  "py_index it v key =
     (case v of
        JObj kv \<Rightarrow>
          (case map_of kv key of
             Some x \<Rightarrow> Inr x
           | None \<Rightarrow> Inl (Exn ''KeyError'' (squote @ key @ squote)))
      | _ \<Rightarrow> Inl (index_error it v key))"

text \<open>\<open>len(v)\<close>\<close>

definition py_len :: "interp \<Rightarrow> json \<Rightarrow> exn + nat" where
  "py_len it v =
     (case v of
        JArr xs \<Rightarrow> Inr (length xs)
      | JStr s \<Rightarrow> Inr (length s)
      | JObj kv \<Rightarrow> Inr (length kv)
      | _ \<Rightarrow> Inl (len_error it v))"

text \<open>
  \<open>f"{v:<40}"\<close>, a value formatted with a width: the exception raised, if one is. Strings
  and numbers take the width; \<open>None\<close>, lists and dicts do not.
\<close>

definition py_format :: "interp \<Rightarrow> json \<Rightarrow> exn option" where
  "py_format it v =
     (case v of
        JNull \<Rightarrow> Some (format_error it v)
      | JArr xs \<Rightarrow> Some (format_error it v)
      | JObj kv \<Rightarrow> Some (format_error it v)
      | _ \<Rightarrow> None)"

section \<open>Handover bundles\<close>





section \<open>The VS Code handover tool\<close>



definition chat_out :: "string \<Rightarrow> out_path" where
  "chat_out bundle = \<lparr>parent = bundle, stem = ''vscode_chat_history'', suffix = ''.md''\<rparr>"






section \<open>The Antigravity handover tool\<close>




section \<open>The result viewer\<close>

text \<open>
  The slice \<open>xs[start:end]\<close> of Python: a negative bound counts from the end, and both
  bounds are clipped to the list.
\<close>

definition py_slice :: "'a list \<Rightarrow> int \<Rightarrow> int \<Rightarrow> 'a list" where
  "py_slice xs start end =
     (let n = int (length xs);
          s = (if start < 0 then max (start + n) 0 else min start n);
          e = (if end < 0 then max (end + n) 0 else min end n)
      in take (nat (e - s)) (drop (nat s) xs))"

text \<open>
  What lines 55 to 75 of \<open>ai_agent_tool_view.py\<close> show: the range announced by
  \<open>Showing results a to b\<close> (absent with \<open>--full\<close>), the numbered entries printed by the loop
  of line 64, and the number of the line \<open>... and N more.\<close> when it is printed.
\<close>

record 'a page =
  shown :: "(int \<times> int) option"
  items :: "(int \<times> 'a) list"
  and_more :: "int option"

definition page_results :: "'a list \<Rightarrow> int \<Rightarrow> int \<Rightarrow> bool \<Rightarrow> 'a page" where
  "page_results results offset limit full =
     (let display_results = (if \<not> full then py_slice results offset (offset + limit) else results)
      in \<lparr>shown = (if \<not> full then Some (offset + 1, min (offset + limit) (int (length results)))
                   else None),
          items = zip (map (\<lambda>i. offset + 1 + int i) [0..<length display_results]) display_results,
          and_more = (if \<not> full \<and> int (length results) > offset + limit
                  then Some (int (length results) - (offset + limit)) else None)\<rparr>)"

text \<open>The window of a page is the entries it prints; what remains is the number it announces.\<close>

definition window :: "'a page \<Rightarrow> 'a list" where
  "window p = map snd (items p)"

definition remaining :: "'a page \<Rightarrow> int" where
  "remaining p = (case and_more p of None \<Rightarrow> 0 | Some n \<Rightarrow> n)"

record view_args =
  run_id :: "string option"
  list_flag :: bool
  tool :: "string option"
  limit :: int
  offset :: int
  full :: bool

datatype 'a screen = NoRuns | Runs "json list" | Page "'a page" | NoScreen

record 'a view_out = proc +
  screen :: "'a screen"

text \<open>
  Line 41, the row of one run in the listing: \<open>run['run_id']\<close>, \<open>run['tool']\<close> and
  \<open>run['count']\<close>, then \<open>run.get('query', '')\<close>, each formatted with a width; the exception
  raised, if one is.
\<close>

definition show_row :: "interp \<Rightarrow> json \<Rightarrow> exn option" where
  "show_row it run =
     (case py_index it run ''run_id'' of
        Inl e \<Rightarrow> Some e
      | Inr i \<Rightarrow>
     (case py_format it i of
        Some e \<Rightarrow> Some e
      | None \<Rightarrow>
     (case py_index it run ''tool'' of
        Inl e \<Rightarrow> Some e
      | Inr t \<Rightarrow>
     (case py_format it t of
        Some e \<Rightarrow> Some e
      | None \<Rightarrow>
     (case py_index it run ''count'' of
        Inl e \<Rightarrow> Some e
      | Inr c \<Rightarrow>
     (case py_format it c of
        Some e \<Rightarrow> Some e
      | None \<Rightarrow>
     (case py_get run ''query'' (JStr []) of
        Inl e \<Rightarrow> Some e
      | Inr q \<Rightarrow> py_format it q)))))))"

fun show_rows :: "interp \<Rightarrow> json list \<Rightarrow> exn option" where
  "show_rows it [] = None"
| "show_rows it (run # runs) =
     (case show_row it run of Some e \<Rightarrow> Some e | None \<Rightarrow> show_rows it runs)"

text \<open>
  Lines 65 to 71, one entry of the window: a dict is printed by its \<open>path\<close>, \<open>line_number\<close>
  and \<open>content\<close>, anything else as it is; the exception raised, if one is.
\<close>

definition show_entry :: "interp \<Rightarrow> json \<Rightarrow> exn option" where
  "show_entry it res =
     (case res of
        JObj kv \<Rightarrow>
          (case py_index it res ''path'' of
             Inl e \<Rightarrow> Some e
           | Inr p \<Rightarrow>
          (case py_index it res ''line_number'' of
             Inl e \<Rightarrow> Some e
           | Inr l \<Rightarrow>
          (case py_index it res ''content'' of
             Inl e \<Rightarrow> Some e
           | Inr c \<Rightarrow> None)))
      | _ \<Rightarrow> None)"

fun show_entries :: "interp \<Rightarrow> json list \<Rightarrow> exn option" where
  "show_entries it [] = None"
| "show_entries it (res # rest) =
     (case show_entry it res of Some e \<Rightarrow> Some e | None \<Rightarrow> show_entries it rest)"

text \<open>
  The body of the \<open>try\<close> of \<open>ai_agent_tool_view.py\<close>, lines 46 to 78, for the value \<open>data\<close>
  that \<open>load_results\<close> gave: \<open>data["metadata"]\<close>, \<open>data["results"]\<close>, \<open>meta['tool']\<close> and
  \<open>len(results)\<close>, then the page of lines 55 to 75 over the elements of \<open>results\<close> (the
  elements of a list, the characters of a string; a dict has its keys shown with
  \<open>--full\<close> and cannot be sliced without), with each entry of the window printed in turn.
\<close>

definition view_body :: "interp \<Rightarrow> view_args \<Rightarrow> json \<Rightarrow> exn + json page" where
  "view_body it args data =
     (case py_index it data ''metadata'' of
        Inl e \<Rightarrow> Inl e
      | Inr meta \<Rightarrow>
     (case py_index it data ''results'' of
        Inl e \<Rightarrow> Inl e
      | Inr results \<Rightarrow>
     (case py_index it meta ''tool'' of
        Inl e \<Rightarrow> Inl e
      | Inr tool_name \<Rightarrow>
     (case py_len it results of
        Inl e \<Rightarrow> Inl e
      | Inr n \<Rightarrow>
          if \<not> full args \<and> (case results of JObj kv \<Rightarrow> True | _ \<Rightarrow> False)
          then Inl (slice_error it results (offset args) (offset args + limit args))
          else
     (case py_iter results of
        Inl e \<Rightarrow> Inl e
      | Inr elems \<Rightarrow>
          (case show_entries it
                  (window (page_results elems (offset args) (limit args) (full args))) of
             Some e \<Rightarrow> Inl e
           | None \<Rightarrow> Inr (page_results elems (offset args) (limit args) (full args))))))))"

text \<open>
  \<open>main\<close> of \<open>ai_agent_tool_view.py\<close>. \<open>QuerySkill.list_runs\<close> and \<open>QuerySkill.load_results\<close>
  are taken from outside: the list of the known runs for a tool filter, and the value
  loaded for a run id or the exception raised for it. The listing of lines 32 to 42 is
  outside the \<open>try\<close>: an exception there leaves \<open>main\<close>.
\<close>

definition view_main ::
  "interp \<Rightarrow> view_args \<Rightarrow> (string option \<Rightarrow> json list) \<Rightarrow> (string \<Rightarrow> exn + json) \<Rightarrow>
   json view_out" where
  "view_main it args list_runs load_results =
     (if list_flag args \<or> run_id args = None \<or> run_id args = Some [] then
        (let runs = list_runs (tool args)
         in if runs = [] then \<lparr>exit_code = 0, stderr = [], screen = NoRuns\<rparr>
            else
              (case show_rows it runs of
                 Some e \<Rightarrow> \<lparr>exit_code = 1, stderr = traceback it e, screen = NoScreen\<rparr>
               | None \<Rightarrow> \<lparr>exit_code = 0, stderr = [], screen = Runs runs\<rparr>))
      else
        (case load_results (case run_id args of Some r \<Rightarrow> r | None \<Rightarrow> []) of
           Inl e \<Rightarrow> \<lparr>exit_code = 1, stderr = [''Error loading run: '' @ exn_msg e], screen = NoScreen\<rparr>
         | Inr data \<Rightarrow>
             (case view_body it args data of
                Inl e \<Rightarrow> \<lparr>exit_code = 1, stderr = [''Error loading run: '' @ exn_msg e],
                          screen = NoScreen\<rparr>
              | Inr page \<Rightarrow> \<lparr>exit_code = 0, stderr = [], screen = Page page\<rparr>)))"




section \<open>The find and grep tools\<close>

text \<open>
  The loop of lines 42 to 49 of \<open>ai_agent_tool_find.py\<close> over what \<open>search.find_files\<close>
  yields: \<open>Inr item\<close> is an item, \<open>Inl e\<close> an exception raised while iterating, which ends
  the loop. \<open>resolve\<close> is \<open>str(item.resolve())\<close>.
\<close>

fun find_loop :: "('p \<Rightarrow> string) \<Rightarrow> (exn + 'p) list \<Rightarrow> string list \<Rightarrow> nat \<Rightarrow> exn + string list \<times> nat" where
  "find_loop resolve [] results count = Inr (results, count)"
| "find_loop resolve (Inl e # rest) results count = Inl e"
| "find_loop resolve (Inr item # rest) results count =
     find_loop resolve rest (results @ [resolve item]) (count + 1)"

record find_args =
  pattern :: string
  path :: "string option"
  regex :: bool
  recursive :: bool

record find_metadata =
  md_tool :: string
  md_timestamp :: string
  md_query :: string
  md_root :: string
  md_regex :: bool
  md_count :: nat

text \<open>
  What the producer tools take from outside: the repository root, the items the search
  yields, \<open>datetime.now().isoformat()\<close>, and whether \<open>create_run_dir\<close> and \<open>persist_results\<close>
  raise.
\<close>

record 'i search_env =
  repo_root :: string
  found :: "(exn + 'i) list"
  now_iso :: string
  create_run_dir :: "exn + string"
  persist_results :: "exn option"

text \<open>
  The outcome of a producer tool: the process, and the metadata and result list handed
  to \<open>persist_results\<close> when the call is reached.
\<close>

record ('m, 'r) produced = proc +
  persist_call :: "('m \<times> 'r list) option"

text \<open>\<open>args.path or str(fs.repo_root)\<close>\<close>

definition root_path :: "string option \<Rightarrow> string \<Rightarrow> string" where
  "root_path p repo = (case p of None \<Rightarrow> repo | Some s \<Rightarrow> if s = [] then repo else s)"

text \<open>\<open>main\<close> of \<open>ai_agent_tool_find.py\<close>, lines 39 to 75.\<close>

definition find_main ::
  "find_args \<Rightarrow> 'p search_env \<Rightarrow> ('p \<Rightarrow> string) \<Rightarrow> (find_metadata, string) produced" where
  "find_main args env resolve =
     (case find_loop resolve (found env) [] 0 of
        Inl e \<Rightarrow> \<lparr>exit_code = 1, stderr = [''Error during find: '' @ exn_msg e], persist_call = None\<rparr>
      | Inr (results, count) \<Rightarrow>
          (let metadata = \<lparr>md_tool = ''ai_agent_tool_find'', md_timestamp = now_iso env,
                           md_query = pattern args, md_root = root_path (path args) (repo_root env),
                           md_regex = regex args, md_count = count\<rparr>
           in case create_run_dir env of
                Inl e \<Rightarrow> \<lparr>exit_code = 1, stderr = [''Error during find: '' @ exn_msg e],
                          persist_call = None\<rparr>
              | Inr run_dir \<Rightarrow>
                  (case persist_results env of
                     Some e \<Rightarrow> \<lparr>exit_code = 1, stderr = [''Error during find: '' @ exn_msg e],
                                persist_call = Some (metadata, results)\<rparr>
                   | None \<Rightarrow> \<lparr>exit_code = 0, stderr = [], persist_call = Some (metadata, results)\<rparr>)))"

text \<open>A match as \<open>search.grep_content\<close> yields it, and as the grep tool stores it.\<close>

record 'p grep_hit =
  hit_path :: 'p
  hit_line_number :: int
  hit_content :: string

record match_entry =
  m_path :: string
  m_line_number :: int
  m_content :: string

text \<open>The loop of lines 46 to 61 of \<open>ai_agent_tool_grep.py\<close>.\<close>

fun grep_loop ::
  "('p \<Rightarrow> string) \<Rightarrow> (exn + 'p grep_hit) list \<Rightarrow> match_entry list \<Rightarrow> nat \<Rightarrow> string set \<Rightarrow>
   exn + match_entry list \<times> nat \<times> string set" where
  "grep_loop resolve [] results count found_in_files = Inr (results, count, found_in_files)"
| "grep_loop resolve (Inl e # rest) results count found_in_files = Inl e"
| "grep_loop resolve (Inr result # rest) results count found_in_files =
     grep_loop resolve rest
       (results @ [\<lparr>m_path = resolve (hit_path result),
                    m_line_number = hit_line_number result,
                    m_content = hit_content result\<rparr>])
       (count + 1)
       (insert (resolve (hit_path result)) found_in_files)"

record grep_args =
  query :: string
  file_pattern :: string
  g_path :: "string option"
  g_regex :: bool
  g_recursive :: bool

record grep_metadata = find_metadata +
  md_file_pattern :: string
  md_file_count :: nat

text \<open>\<open>main\<close> of \<open>ai_agent_tool_grep.py\<close>, lines 41 to 92.\<close>

definition grep_main ::
  "grep_args \<Rightarrow> 'p grep_hit search_env \<Rightarrow> ('p \<Rightarrow> string) \<Rightarrow> (grep_metadata, match_entry) produced" where
  "grep_main args env resolve =
     (case grep_loop resolve (found env) [] 0 {} of
        Inl e \<Rightarrow> \<lparr>exit_code = 1, stderr = [''Error during grep: '' @ exn_msg e], persist_call = None\<rparr>
      | Inr (results, count, found_in_files) \<Rightarrow>
          (let metadata = \<lparr>md_tool = ''ai_agent_tool_grep'', md_timestamp = now_iso env,
                           md_query = query args, md_root = root_path (g_path args) (repo_root env),
                           md_regex = g_regex args, md_count = count,
                           md_file_pattern = file_pattern args,
                           md_file_count = card found_in_files\<rparr>
           in case create_run_dir env of
                Inl e \<Rightarrow> \<lparr>exit_code = 1, stderr = [''Error during grep: '' @ exn_msg e],
                          persist_call = None\<rparr>
              | Inr run_dir \<Rightarrow>
                  (case persist_results env of
                     Some e \<Rightarrow> \<lparr>exit_code = 1, stderr = [''Error during grep: '' @ exn_msg e],
                                persist_call = Some (metadata, results)\<rparr>
                   | None \<Rightarrow> \<lparr>exit_code = 0, stderr = [], persist_call = Some (metadata, results)\<rparr>)))"

section \<open>The copy tool\<close>






section \<open>The list tool\<close>






section \<open>The archive tool\<close>


section \<open>Auxiliary notions for the proofs\<close>

text \<open>
  A group of consecutive blocks obeys the weight constraint when its lines fit the limit
  or it is a single block (a block is never split).
\<close>

definition fits :: "int \<Rightarrow> string list \<Rightarrow> bool" where
  "fits m c = (int (total_lines c) \<le> m \<or> length c \<le> 1)"

text \<open>Inside a chunk, the closing test of line 124 held before none of its later blocks.\<close>

definition no_close_inside :: "int \<Rightarrow> string list \<Rightarrow> bool" where
  "no_close_inside m c =
     (\<forall>k. 0 < k \<and> k < length c \<longrightarrow>
        \<not> (0 < total_lines (take k c) \<and> m < int (total_lines (take k c) + count_nl (c ! k))))"

text \<open>
  An entry the viewer can print: anything that is not a dict, or a dict with the keys
  \<open>path\<close>, \<open>line_number\<close> and \<open>content\<close>.
\<close>

definition entry_ok :: "json \<Rightarrow> bool" where
  "entry_ok res =
     (case res of
        JObj kv \<Rightarrow>
          map_of kv ''path'' \<noteq> None \<and> map_of kv ''line_number'' \<noteq> None \<and>
          map_of kv ''content'' \<noteq> None
      | _ \<Rightarrow> True)"

section \<open>Example inputs\<close>

definition example_requests :: "json list" where
  "example_requests =
     [JObj [(''message'', JObj [(''text'', JStr ''hi'')])],
      JObj [(''message'', JObj [(''text'', JStr ''ok'')]), (''response'', JArr [JObj [(''value'', JStr ''yes'')]])],
      JObj []]"

definition example_blocks :: "string list" where
  "example_blocks =
     [[nl, nl] @ ''## User'' @ [nl] @ ''hi'' @ [nl, nl] @ ''---'',
      [nl, nl] @ ''## User'' @ [nl] @ ''ok'' @ [nl, nl] @ ''## Assistant'' @ [nl] @ ''yes'' @ [nl, nl] @ ''---'',
      [nl, nl] @ ''## User'' @ [nl] @ [nl, nl] @ ''---'']"

definition example_env :: "json \<Rightarrow> export_env" where
  "example_env data =
     \<lparr>load_json = Inr data, json_name = ''chat.json'', str_of = (\<lambda>v. []),
      now = (\<lambda>k. ''2025-01-01 00:00:00''), open_w = (\<lambda>p. None)\<rparr>"

definition long_chat :: json where
  "long_chat = JObj [(''requests'', JArr [JObj [(''message'', JObj [(''text'', JStr (replicate 496 nl))])]])]"

definition example_find_env :: "string search_env" where
  "example_find_env =
     \<lparr>repo_root = ''/repo'', found = [Inr ''a.txt'', Inr ''b.txt''],
      now_iso = ''2025-01-01T00:00:00'', create_run_dir = Inr ''20250101_000000_txt'',
      persist_results = None\<rparr>"

definition example_find_args :: find_args where
  "example_find_args = \<lparr>pattern = ''*.txt'', path = None, regex = False, recursive = True\<rparr>"

definition example_grep_env :: "string grep_hit search_env" where
  "example_grep_env =
     \<lparr>repo_root = ''/repo'',
      found = [Inr \<lparr>hit_path = ''a.py'', hit_line_number = 1, hit_content = ''import os''\<rparr>,
               Inr \<lparr>hit_path = ''a.py'', hit_line_number = 7, hit_content = ''os.getcwd()''\<rparr>,
               Inr \<lparr>hit_path = ''b.py'', hit_line_number = 2, hit_content = ''import os''\<rparr>],
      now_iso = ''2025-01-01T00:00:00'', create_run_dir = Inr ''20250101_000000_os'',
      persist_results = None\<rparr>"

definition example_grep_args :: grep_args where
  "example_grep_args =
     \<lparr>query = ''os'', file_pattern = ''*.py'', g_path = None, g_regex = False, g_recursive = True\<rparr>"

definition example_resolve :: "string \<Rightarrow> string" where
  "example_resolve p = ''/repo/'' @ p"

definition example_find_metadata :: find_metadata where
  "example_find_metadata =
     \<lparr>md_tool = ''ai_agent_tool_find'', md_timestamp = ''2025-01-01T00:00:00'', md_query = ''*.txt'',
      md_root = ''/repo'', md_regex = False, md_count = 2\<rparr>"

definition example_grep_metadata :: grep_metadata where
  "example_grep_metadata =
     \<lparr>md_tool = ''ai_agent_tool_grep'', md_timestamp = ''2025-01-01T00:00:00'', md_query = ''os'',
      md_root = ''/repo'', md_regex = False, md_count = 3, md_file_pattern = ''*.py'',
      md_file_count = 2\<rparr>"

definition example_grep_results :: "match_entry list" where
  "example_grep_results =
     [\<lparr>m_path = ''/repo/a.py'', m_line_number = 1, m_content = ''import os''\<rparr>,
      \<lparr>m_path = ''/repo/a.py'', m_line_number = 7, m_content = ''os.getcwd()''\<rparr>,
      \<lparr>m_path = ''/repo/b.py'', m_line_number = 2, m_content = ''import os''\<rparr>]"

definition example_chat :: json where
  "example_chat = JObj [(''requests'', JArr example_requests)]"

definition denied_env :: export_env where
  "denied_env =
     (example_env example_chat)
       \<lparr>open_w := (\<lambda>p. if fname p = ''vscode_chat_history_part002.md''
                         then Some (Exn ''PermissionError'' ''Permission denied'') else None)\<rparr>"



text \<open>
  An interpreter for the examples: the texts that are not in the source are stood for by
  placeholders, with the exception's own line last in a traceback.
\<close>

definition example_interp :: interp where
  "example_interp =
     \<lparr>traceback = (\<lambda>e. [''<traceback>'', exn_type e @ '': '' @ exn_msg e]),
      usage_error = [''<usage>'', ''<error>''],
      index_error = (\<lambda>v key. Exn ''TypeError'' ''<not subscriptable>''),
      len_error = (\<lambda>v. Exn ''TypeError'' ''<no len>''),
      slice_error = (\<lambda>v a b. Exn ''TypeError'' ''<no slice>''),
      format_error = (\<lambda>v. Exn ''TypeError'' ''<no format>'')\<rparr>"

definition example_view_args :: view_args where
  "example_view_args =
     \<lparr>run_id = Some ''20250101_000000_txt'', list_flag = False, tool = None,
      limit = 10, offset = 0, full = False\<rparr>"

definition example_row :: json where
  "example_row =
     JObj [(''run_id'', JStr ''20250101_000000_txt''), (''tool'', JStr ''ai_agent_tool_find''),
           (''count'', JInt 2), (''query'', JStr ''*.txt'')]"

definition example_list_runs :: "string option \<Rightarrow> json list" where
  "example_list_runs t = [example_row]"


definition example_run :: json where
  "example_run =
     JObj [(''metadata'', JObj [(''tool'', JStr ''ai_agent_tool_find''), (''query'', JStr ''*.txt''),
                                (''count'', JInt 2)]),
           (''results'', JArr [JStr ''/repo/a.txt'', JStr ''/repo/b.txt''])]"

definition malformed_run :: json where
  "malformed_run =
     JObj [(''metadata'', JObj [(''tool'', JStr ''ai_agent_tool_grep'')]),
           (''results'', JArr [JObj [(''path'', JStr ''/repo/a.py''), (''content'', JStr ''import os'')]])]"

definition example_load_results :: "string \<Rightarrow> exn + json" where
  "example_load_results r =
     (if r = ''20250101_000000_txt'' then Inr example_run
      else if r = ''20250102_000000_os'' then Inr malformed_run
      else if r = ''20250103_000000_x'' then Inr (JObj [(''results'', JArr [])])
      else Inl (Exn ''FileNotFoundError'' (''Run not found: '' @ r)))"













section \<open>The chunk loop\<close>


lemma count_nl_append [simp]: "count_nl (a @ b) = count_nl a + count_nl b"
  by (simp add: count_nl_def)

lemma total_lines_simps [simp]:
  "total_lines [] = 0"
  "total_lines (b # bs) = count_nl b + total_lines bs"
  "total_lines (xs @ ys) = total_lines xs + total_lines ys"
  by (simp_all add: total_lines_def)

lemma chunk_loop_concat:
  "concat (map snd (chunk_loop m bs idx cur cb)) = cb @ bs"
  by (induction bs arbitrary: idx cur cb) auto

lemma chunk_loop_nonempty:
  "cur = total_lines cb \<Longrightarrow> [] \<notin> snd ` set (chunk_loop m bs idx cur cb)"
proof (induction bs arbitrary: idx cur cb)
  case Nil
  then show ?case by auto
next
  case (Cons b bs)
  show ?case
  proof (cases "int (cur + count_nl b) > m \<and> cur > 0")
    case True
    with Cons.prems have "cb \<noteq> []" by auto
    moreover have "[] \<notin> snd ` set (chunk_loop m bs (idx + 1) (count_nl b) [b])"
      by (rule Cons.IH) simp
    ultimately show ?thesis using True by auto
  next
    case False
    have "[] \<notin> snd ` set (chunk_loop m bs idx (cur + count_nl b) (cb @ [b]))"
      by (rule Cons.IH) (simp add: Cons.prems)
    then show ?thesis using False by auto
  qed
qed

lemma chunk_loop_idx:
  "j < length (chunk_loop m bs idx cur cb) \<Longrightarrow> fst (chunk_loop m bs idx cur cb ! j) = idx + j"
proof (induction bs arbitrary: idx cur cb j)
  case Nil
  then show ?case by (auto split: if_splits)
next
  case (Cons b bs)
  show ?case
  proof (cases "int (cur + count_nl b) > m \<and> cur > 0")
    case True
    then have eq: "chunk_loop m (b # bs) idx cur cb
                   = (idx, cb) # chunk_loop m bs (idx + 1) (count_nl b) [b]" by simp
    show ?thesis
    proof (cases j)
      case 0
      then show ?thesis unfolding eq by simp
    next
      case (Suc k)
      with Cons.prems have "k < length (chunk_loop m bs (idx + 1) (count_nl b) [b])"
        unfolding eq by simp
      from Cons.IH [OF this] show ?thesis unfolding eq Suc by simp
    qed
  next
    case False
    then have eq: "chunk_loop m (b # bs) idx cur cb
                   = chunk_loop m bs idx (cur + count_nl b) (cb @ [b])" by auto
    show ?thesis using Cons.IH [of j idx "cur + count_nl b" "cb @ [b]"] Cons.prems
      unfolding eq by simp
  qed
qed

lemma chunk_loop_within:
  "int (cur + total_lines xs) \<le> m \<Longrightarrow>
   chunk_loop m (xs @ ys) idx cur cb = chunk_loop m ys idx (cur + total_lines xs) (cb @ xs)"
  by (induction xs arbitrary: cur cb) (auto simp: add.assoc)


lemma chunk_loop_one_close:
  assumes "fits m c"
  shows "\<exists>pre idx' cur' cb'. chunk_loop m (c @ ys) idx cur cb = pre @ chunk_loop m ys idx' cur' cb'
           \<and> length pre \<le> 1"
proof (cases "int (total_lines c) \<le> m")
  case True
  then show ?thesis
  proof (induction c arbitrary: idx cur cb)
    case Nil
    show ?case by (rule exI [of _ "[]"]) auto
  next
    case (Cons x xs)
    show ?case
    proof (cases "int (cur + count_nl x) > m \<and> cur > 0")
      case True
      have "int (count_nl x + total_lines xs) \<le> m" using Cons.prems by simp
      then have "chunk_loop m (xs @ ys) (idx + 1) (count_nl x) [x]
                 = chunk_loop m ys (idx + 1) (count_nl x + total_lines xs) ([x] @ xs)"
        by (rule chunk_loop_within)
      then have "chunk_loop m ((x # xs) @ ys) idx cur cb
                 = [(idx, cb)] @ chunk_loop m ys (idx + 1) (count_nl x + total_lines xs) ([x] @ xs)"
        using True by simp
      then show ?thesis by (metis length_Cons list.size(3) le_refl One_nat_def)
    next
      case False
      have "int (total_lines xs) \<le> m" using Cons.prems by simp
      from Cons.IH [OF this, of idx "cur + count_nl x" "cb @ [x]"]
      obtain pre idx' cur' cb' where
        "chunk_loop m (xs @ ys) idx (cur + count_nl x) (cb @ [x]) = pre @ chunk_loop m ys idx' cur' cb'"
        "length pre \<le> 1" by blast
      moreover have "chunk_loop m ((x # xs) @ ys) idx cur cb
                     = chunk_loop m (xs @ ys) idx (cur + count_nl x) (cb @ [x])"
        using False by auto
      ultimately show ?thesis by metis
    qed
  qed
next
  case False
  with assms have "length c \<le> 1" by (simp add: fits_def)
  then consider "c = []" | x where "c = [x]"
    by (cases c) (auto simp: Suc_le_eq)
  then show ?thesis
  proof cases
    case 1
    show ?thesis unfolding 1 by (rule exI [of _ "[]"]) auto
  next
    case 2
    show ?thesis
    proof (cases "int (cur + count_nl x) > m \<and> cur > 0")
      case True
      then have "chunk_loop m (c @ ys) idx cur cb = [(idx, cb)] @ chunk_loop m ys (idx + 1) (count_nl x) [x]"
        by (simp add: 2)
      then show ?thesis by (metis length_Cons list.size(3) le_refl One_nat_def)
    next
      case False
      then have "chunk_loop m (c @ ys) idx cur cb = [] @ chunk_loop m ys idx (cur + count_nl x) (cb @ [x])"
        by (auto simp: 2)
      then show ?thesis by (metis list.size(3) zero_le)
    qed
  qed
qed

lemma chunk_loop_le_Suc:
  "\<forall>c \<in> set cs. fits m c \<Longrightarrow> length (chunk_loop m (concat cs) idx cur cb) \<le> Suc (length cs)"
proof (induction cs arbitrary: idx cur cb)
  case Nil
  then show ?case by simp
next
  case (Cons c cs)
  then have "fits m c" by simp
  from chunk_loop_one_close [OF this, of "concat cs" idx cur cb]
  obtain pre idx' cur' cb' where
    eq: "chunk_loop m (c @ concat cs) idx cur cb = pre @ chunk_loop m (concat cs) idx' cur' cb'"
    and len: "length pre \<le> 1" by blast
  have "length (chunk_loop m (concat cs) idx' cur' cb') \<le> Suc (length cs)"
    using Cons by simp
  then show ?case using eq len by simp
qed

lemma chunk_loop_start_le:
  "\<forall>c \<in> set cs. fits m c \<Longrightarrow> length (chunk_loop m (concat cs) idx 0 []) \<le> length cs"
proof (induction cs)
  case Nil
  then show ?case by simp
next
  case (Cons c cs)
  show ?case
  proof (cases c)
    case Nil
    then show ?thesis using Cons by simp
  next
    case (Cons x xs)
    have rest: "\<forall>c \<in> set cs. fits m c" using Cons.prems by simp
    have "fits m c" using Cons.prems by simp
    then have "int (total_lines c) \<le> m \<or> xs = []"
      using Cons by (auto simp: fits_def)
    then consider "int (total_lines c) \<le> m" | "xs = []"
      by blast
    then have "\<exists>cur'. chunk_loop m (c @ concat cs) idx 0 [] = chunk_loop m (concat cs) idx cur' c"
    proof cases
      case 1
      then show ?thesis using chunk_loop_within [of 0 c m "concat cs" idx "[]"] by auto
    next
      case 2
      then show ?thesis using Cons by auto
    qed
    then show ?thesis using chunk_loop_le_Suc [OF rest] by auto
  qed
qed



lemma chunk_loop_hd:
  "cb \<noteq> [] \<Longrightarrow> chunk_loop m bs idx cur cb \<noteq> [] \<and> hd (snd (hd (chunk_loop m bs idx cur cb))) = hd cb"
  by (induction bs arbitrary: idx cur cb) auto

lemma chunk_loop_fits:
  assumes "\<forall>b \<in> set bs. 0 < count_nl b"
    and "cur = total_lines cb"
    and "cur = 0 \<longrightarrow> cb = []"
    and "fits m cb"
  shows "\<forall>c \<in> snd ` set (chunk_loop m bs idx cur cb). fits m c"
  using assms
proof (induction bs arbitrary: idx cur cb)
  case Nil
  then show ?case by auto
next
  case (Cons b bs)
  have pos: "\<forall>b \<in> set bs. 0 < count_nl b" and bpos: "0 < count_nl b"
    using Cons.prems(1) by simp_all
  show ?case
  proof (cases "int (cur + count_nl b) > m \<and> cur > 0")
    case True
    have "\<forall>c \<in> snd ` set (chunk_loop m bs (idx + 1) (count_nl b) [b]). fits m c"
      using pos bpos by (intro Cons.IH) (simp_all add: fits_def)
    then show ?thesis using True Cons.prems(4) by simp
  next
    case False
    have "fits m (cb @ [b])"
    proof (cases "cur = 0")
      case True
      then show ?thesis using Cons.prems(3) by (simp add: fits_def)
    next
      case nz: False
      then show ?thesis using False Cons.prems(2) by (simp add: fits_def)
    qed
    then have "\<forall>c \<in> snd ` set (chunk_loop m bs idx (cur + count_nl b) (cb @ [b])). fits m c"
      using pos bpos Cons.prems(2) by (intro Cons.IH) simp_all
    then show ?thesis using False by auto
  qed
qed

lemma no_close_inside_snoc:
  assumes "no_close_inside m c"
    and "\<not> (0 < total_lines c \<and> m < int (total_lines c + count_nl b))"
  shows "no_close_inside m (c @ [b])"
  unfolding no_close_inside_def
proof (intro allI impI)
  fix k assume k: "0 < k \<and> k < length (c @ [b])"
  show "\<not> (0 < total_lines (take k (c @ [b])) \<and>
            m < int (total_lines (take k (c @ [b])) + count_nl ((c @ [b]) ! k)))"
  proof (cases "k < length c")
    case True
    then show ?thesis using assms(1) k by (simp add: no_close_inside_def nth_append)
  next
    case False
    with k have "k = length c" by simp
    then show ?thesis using assms(2) by simp
  qed
qed

lemma chunk_loop_inside:
  assumes "cur = total_lines cb" and "no_close_inside m cb"
  shows "\<forall>c \<in> snd ` set (chunk_loop m bs idx cur cb). no_close_inside m c"
  using assms
proof (induction bs arbitrary: idx cur cb)
  case Nil
  then show ?case by auto
next
  case (Cons b bs)
  show ?case
  proof (cases "int (cur + count_nl b) > m \<and> cur > 0")
    case True
    have "\<forall>c \<in> snd ` set (chunk_loop m bs (idx + 1) (count_nl b) [b]). no_close_inside m c"
      by (intro Cons.IH) (simp_all add: no_close_inside_def)
    then show ?thesis using True Cons.prems(2) by simp
  next
    case False
    have "no_close_inside m (cb @ [b])"
      using Cons.prems False by (intro no_close_inside_snoc) auto
    then have "\<forall>c \<in> snd ` set (chunk_loop m bs idx (cur + count_nl b) (cb @ [b])). no_close_inside m c"
      using Cons.prems(1) by (intro Cons.IH) simp_all
    then show ?thesis using False by auto
  qed
qed

lemma chunk_loop_closed:
  assumes "cur = total_lines cb" and "Suc j < length (chunk_loop m bs idx cur cb)"
  shows "0 < total_lines (snd (chunk_loop m bs idx cur cb ! j)) \<and>
         m < int (total_lines (snd (chunk_loop m bs idx cur cb ! j)) +
                  count_nl (hd (snd (chunk_loop m bs idx cur cb ! Suc j))))"
  using assms
proof (induction bs arbitrary: idx cur cb j)
  case Nil
  then show ?case by (auto split: if_splits)
next
  case (Cons b bs)
  show ?case
  proof (cases "int (cur + count_nl b) > m \<and> cur > 0")
    case True
    let ?r = "chunk_loop m bs (idx + 1) (count_nl b) [b]"
    have eq: "chunk_loop m (b # bs) idx cur cb = (idx, cb) # ?r" using True by simp
    have hd: "?r \<noteq> [] \<and> hd (snd (hd ?r)) = b"
      using chunk_loop_hd [of "[b]" m bs "idx + 1" "count_nl b"] by simp
    show ?thesis
    proof (cases j)
      case 0
      have "?r ! 0 = hd ?r" using hd by (simp add: hd_conv_nth)
      then show ?thesis unfolding eq 0 using True Cons.prems(1) hd by simp
    next
      case (Suc k)
      with Cons.prems(2) have "Suc k < length ?r" unfolding eq by simp
      from Cons.IH [OF _ this] show ?thesis unfolding eq Suc by simp
    qed
  next
    case False
    then have eq: "chunk_loop m (b # bs) idx cur cb
                   = chunk_loop m bs idx (cur + count_nl b) (cb @ [b])" by auto
    show ?thesis using Cons.IH [of "cur + count_nl b" "cb @ [b]" j idx] Cons.prems
      unfolding eq by simp
  qed
qed

lemma total_lines_take_nth:
  "k < length c \<Longrightarrow> total_lines (take k c) + count_nl (c ! k) \<le> total_lines c"
proof (induction c arbitrary: k)
  case Nil
  then show ?case by simp
next
  case (Cons x xs)
  then show ?case by (cases k) auto
qed

lemma count_nl_le_total: "b \<in> set c \<Longrightarrow> count_nl b \<le> total_lines c"
  by (induction c) auto

lemma concat_position:
  "i < length (concat cs) \<Longrightarrow>
   \<exists>j k. j < length cs \<and> k < length (cs ! j) \<and> length (concat (take j cs)) + k = i
         \<and> cs ! j ! k = concat cs ! i"
proof (induction cs arbitrary: i)
  case Nil
  then show ?case by simp
next
  case (Cons c cs)
  show ?case
  proof (cases "i < length c")
    case True
    then have "0 < length (c # cs) \<and> i < length ((c # cs) ! 0)
               \<and> length (concat (take 0 (c # cs))) + i = i
               \<and> (c # cs) ! 0 ! i = concat (c # cs) ! i"
      by (simp add: nth_append)
    then show ?thesis by blast
  next
    case False
    then have "i - length c < length (concat cs)" using Cons.prems by simp
    from Cons.IH [OF this] obtain j k where
      jk: "j < length cs" "k < length (cs ! j)" "length (concat (take j cs)) + k = i - length c"
          "cs ! j ! k = concat cs ! (i - length c)" by blast
    then have "Suc j < length (c # cs) \<and> k < length ((c # cs) ! Suc j)
               \<and> length (concat (take (Suc j) (c # cs))) + k = i
               \<and> (c # cs) ! Suc j ! k = concat (c # cs) ! i"
      using False by (simp add: nth_append)
    then show ?thesis by blast
  qed
qed


section \<open>Blocks and chunks of an export\<close>


lemma count_nl_headings [simp]:
  "count_nl user_heading = 3" "count_nl assistant_heading = 3" "count_nl separator = 2"
  by (simp_all add: count_nl_def user_heading_def assistant_heading_def separator_def nl_def)

lemma make_block_lines: "make_block f req = Inr b \<Longrightarrow> 5 \<le> count_nl b"
  by (auto simp: make_block_def split: sum.splits)

lemma build_blocks_length: "build_blocks f reqs = Inr blocks \<Longrightarrow> length blocks = length reqs"
  by (induction reqs arbitrary: blocks) (auto split: sum.splits)

lemma build_blocks_lines:
  "build_blocks f reqs = Inr blocks \<Longrightarrow> \<forall>b \<in> set blocks. 5 \<le> count_nl b"
  by (induction reqs arbitrary: blocks) (auto split: sum.splits dest: make_block_lines)

lemma chunks_of_concat: "concat (chunks_of m bs) = bs"
  using chunk_loop_concat [of m bs 1 0 "[]"]
  by (simp add: chunks_of_def split_blocks_def comp_def case_prod_unfold)

lemma snd_split_chunk_mode:
  "map snd (map (\<lambda>(idx, blks). (Part idx, blks)) xs) = map snd xs"
  by (induction xs) auto

lemma chunks_of_cases:
  "chunks_of m bs = (if int (total_lines bs) \<le> m then [bs] else map snd (chunk_loop m bs 1 0 []))"
  by (simp add: chunks_of_def split_blocks_def snd_split_chunk_mode del: map_map)

lemma chunks_of_nonempty: "bs \<noteq> [] \<Longrightarrow> [] \<notin> set (chunks_of m bs)"
  using chunk_loop_nonempty [of 0 "[]" m bs 1]
  by (auto simp: chunks_of_cases)

lemma chunks_of_fits:
  assumes "\<forall>b \<in> set bs. 0 < count_nl b"
  shows "\<forall>c \<in> set (chunks_of m bs). fits m c"
  using chunk_loop_fits [OF assms, of 0 "[]" m 1]
  by (auto simp: chunks_of_cases fits_def)

lemma chunks_of_minimal:
  assumes "bs \<noteq> []" and "concat cs = bs" and "\<forall>c \<in> set cs. fits m c"
  shows "length (chunks_of m bs) \<le> length cs"
proof (cases "int (total_lines bs) \<le> m")
  case True
  from assms(1,2) have "cs \<noteq> []" by auto
  then have "1 \<le> length cs" by (cases cs) auto
  then show ?thesis using True by (simp add: chunks_of_cases)
next
  case False
  then show ?thesis
    using chunk_loop_start_le [OF assms(3), of 1] assms(2) by (simp add: chunks_of_cases)
qed

lemma chunks_of_inside: "\<forall>c \<in> set (chunks_of m bs). no_close_inside m c"
proof (cases "int (total_lines bs) \<le> m")
  case True
  have "no_close_inside m bs"
    unfolding no_close_inside_def
  proof (intro allI impI)
    fix k assume "0 < k \<and> k < length bs"
    then have "total_lines (take k bs) + count_nl (bs ! k) \<le> total_lines bs"
      by (simp add: total_lines_take_nth)
    then show "\<not> (0 < total_lines (take k bs) \<and> m < int (total_lines (take k bs) + count_nl (bs ! k)))"
      using True by linarith
  qed
  then show ?thesis using True by (simp add: chunks_of_cases)
next
  case False
  then show ?thesis
    using chunk_loop_inside [of 0 "[]" m bs 1]
    by (auto simp: chunks_of_cases no_close_inside_def)
qed

lemma chunks_of_closed:
  assumes "Suc j < length (chunks_of m bs)"
  shows "0 < total_lines (chunks_of m bs ! j) \<and>
         m < int (total_lines (chunks_of m bs ! j) + count_nl (hd (chunks_of m bs ! Suc j)))"
proof (cases "int (total_lines bs) \<le> m")
  case True
  then show ?thesis using assms by (simp add: chunks_of_cases)
next
  case False
  then have eq: "chunks_of m bs = map snd (chunk_loop m bs 1 0 [])"
    by (simp add: chunks_of_cases)
  from assms have len: "Suc j < length (chunk_loop m bs 1 0 [])" by (simp add: eq)
  from chunk_loop_closed [OF _ len] len show ?thesis by (simp add: eq)
qed

lemma write_chunks_ok:
  "\<forall>p \<in> set plan. open_w env (target_file out (fst p)) = None \<Longrightarrow>
   fst (write_chunks env out plan k) = map (\<lambda>p. target_file out (fst p)) plan
   \<and> map fst (fst (snd (write_chunks env out plan k))) = map (\<lambda>p. target_file out (fst p)) plan
   \<and> snd (snd (write_chunks env out plan k)) = None"
proof (induction plan arbitrary: k)
  case Nil
  then show ?case by simp
next
  case (Cons p plan)
  obtain t blks where p: "p = (t, blks)" by (cases p)
  from Cons.prems have "\<forall>p \<in> set plan. open_w env (target_file out (fst p)) = None" by simp
  from Cons.IH [OF this, of "k + 1"] Cons.prems show ?case
    by (auto simp: p split: prod.splits)
qed

lemma write_chunks_fail:
  "\<exists>p \<in> set plan. open_w env (target_file out (fst p)) \<noteq> None \<Longrightarrow>
   snd (snd (write_chunks env out plan k)) \<noteq> None"
proof (induction plan arbitrary: k)
  case Nil
  then show ?case by simp
next
  case (Cons p plan)
  obtain t blks where p: "p = (t, blks)" by (cases p)
  show ?case
  proof (cases "open_w env (target_file out t)")
    case (Some e)
    then show ?thesis by (simp add: p)
  next
    case None
    with Cons.prems p have "\<exists>p \<in> set plan. open_w env (target_file out (fst p)) \<noteq> None" by auto
    from Cons.IH [OF this, of "k + 1"] None show ?thesis
      by (auto simp: p split: prod.splits)
  qed
qed

lemma chunk_loop_idx_list:
  "map fst (chunk_loop m bs idx cur cb) = [idx ..< idx + length (chunk_loop m bs idx cur cb)]"
  by (rule nth_equalityI) (simp_all add: chunk_loop_idx)

lemma split_blocks_targets:
  "map fst (split_blocks m bs) =
     (if int (total_lines bs) \<le> m then [Plain]
      else map Part [1 ..< Suc (length (chunks_of m bs))])"
proof (cases "int (total_lines bs) \<le> m")
  case True
  then show ?thesis by (simp add: split_blocks_def)
next
  case False
  have "map fst (split_blocks m bs) = map Part (map fst (chunk_loop m bs 1 0 []))"
    using False by (simp add: split_blocks_def case_prod_unfold)
  also have "\<dots> = map Part [1 ..< 1 + length (chunk_loop m bs 1 0 [])]"
    by (simp only: chunk_loop_idx_list [of m bs 1 0 "[]"])
  finally show ?thesis using False by (simp add: chunks_of_cases)
qed

lemma numbered_iff:
  assumes "\<forall>b \<in> set bs. 0 < count_nl b" and "bs \<noteq> []"
  shows "(\<not> int (total_lines bs) \<le> m) \<longleftrightarrow>
         (1 < length (chunks_of m bs) \<or> (\<exists>b. bs = [b] \<and> m < int (count_nl b)))"
proof
  assume big: "\<not> int (total_lines bs) \<le> m"
  show "1 < length (chunks_of m bs) \<or> (\<exists>b. bs = [b] \<and> m < int (count_nl b))"
  proof (cases "1 < length (chunks_of m bs)")
    case True
    then show ?thesis by simp
  next
    case False
    have "concat (chunks_of m bs) = bs" by (rule chunks_of_concat)
    with assms(2) have "chunks_of m bs \<noteq> []" by auto
    with False obtain c where c: "chunks_of m bs = [c]"
      by (cases "chunks_of m bs") auto
    with chunks_of_concat [of m bs] have "c = bs" by simp
    with c chunks_of_fits [OF assms(1), of m] have "fits m bs" by simp
    with big have "length bs \<le> 1" by (simp add: fits_def)
    with assms(2) obtain b where "bs = [b]" by (cases bs) auto
    with big show ?thesis by simp
  qed
next
  assume "1 < length (chunks_of m bs) \<or> (\<exists>b. bs = [b] \<and> m < int (count_nl b))"
  then show "\<not> int (total_lines bs) \<le> m"
    by (auto simp: chunks_of_cases split: if_splits)
qed

lemma length_digits_pos: "0 < length (digits n)"
  by (subst digits.simps) simp

lemma length_fmt_03d: "length (fmt_03d idx) = max 3 (length (digits idx))"
  by (simp add: fmt_03d_def)

lemma part_file_not_plain: "part_file out idx \<noteq> plain_file out"
proof
  assume "part_file out idx = plain_file out"
  then have "fname (part_file out idx) = fname (plain_file out)" by simp
  then have "length (fname (part_file out idx)) = length (fname (plain_file out))" by simp
  then show False by (simp add: part_file_def plain_file_def)
qed


lemma count_nl_replicate [simp]: "count_nl (replicate n nl) = n"
  by (simp add: count_nl_def)

lemma export_success:
  assumes "load_json env = Inr data"
    and "py_get data ''requests'' (JArr []) = Inr requests"
    and "truthy requests"
    and "py_iter requests = Inr reqs"
    and "build_blocks (str_of env) reqs = Inr blocks"
    and "\<forall>p \<in> set (split_blocks m blocks). open_w env (target_file out (fst p)) = None"
  shows "created_files (export_to_markdown env out m) =
           map (\<lambda>p. target_file out (fst p)) (split_blocks m blocks)
         \<and> map fst (files (export_to_markdown env out m)) =
           map (\<lambda>p. target_file out (fst p)) (split_blocks m blocks)
         \<and> printed (export_to_markdown env out m) = []"
proof -
  obtain cr wr r where w: "write_chunks env out (split_blocks m blocks) 0 = (cr, wr, r)"
    by (cases "write_chunks env out (split_blocks m blocks) 0") auto
  from write_chunks_ok [OF assms(6), of 0] w
  have "cr = map (\<lambda>p. target_file out (fst p)) (split_blocks m blocks)"
    and "map fst wr = map (\<lambda>p. target_file out (fst p)) (split_blocks m blocks)"
    and "r = None" by simp_all
  then show ?thesis using assms(1-5) w by (simp add: export_to_markdown_def export_body_def)
qed

lemma export_nonempty_only_if:
  assumes "created_files (export_to_markdown env out m) \<noteq> []"
  shows "\<exists>data requests reqs blocks.
           load_json env = Inr data \<and> py_get data ''requests'' (JArr []) = Inr requests \<and>
           truthy requests \<and> py_iter requests = Inr reqs \<and>
           build_blocks (str_of env) reqs = Inr blocks \<and>
           (\<forall>p \<in> set (split_blocks m blocks). open_w env (target_file out (fst p)) = None)"
proof -
  from assms obtain data where d: "load_json env = Inr data"
    by (cases "load_json env") (auto simp: export_to_markdown_def export_body_def export_failed_def)
  from assms d obtain requests where rq: "py_get data ''requests'' (JArr []) = Inr requests"
    by (cases "py_get data ''requests'' (JArr [])") (auto simp: export_to_markdown_def export_body_def export_failed_def)
  from assms d rq have t: "truthy requests"
    by (auto simp: export_to_markdown_def export_body_def split: if_splits)
  from assms d rq t obtain reqs where it: "py_iter requests = Inr reqs"
    by (cases "py_iter requests") (auto simp: export_to_markdown_def export_body_def export_failed_def)
  from assms d rq t it obtain blocks where b: "build_blocks (str_of env) reqs = Inr blocks"
    by (cases "build_blocks (str_of env) reqs") (auto simp: export_to_markdown_def export_body_def export_failed_def)
  have "\<forall>p \<in> set (split_blocks m blocks). open_w env (target_file out (fst p)) = None"
  proof (rule ccontr)
    assume "\<not> ?thesis"
    then have "\<exists>p \<in> set (split_blocks m blocks). open_w env (target_file out (fst p)) \<noteq> None" by simp
    from write_chunks_fail [OF this, of 0] obtain cr wr e where
      "write_chunks env out (split_blocks m blocks) 0 = (cr, wr, Some e)"
      by (cases "write_chunks env out (split_blocks m blocks) 0") auto
    with d rq t it b have "created_files (export_to_markdown env out m) = []"
      by (simp add: export_to_markdown_def export_body_def export_failed_def)
    with assms show False by simp
  qed
  with d rq t it b show ?thesis by blast
qed

lemma export_printed_then_empty:
  "printed (export_to_markdown env out m) \<noteq> [] \<Longrightarrow> created_files (export_to_markdown env out m) = []"
  by (auto simp: export_to_markdown_def export_body_def export_failed_def split: sum.splits if_splits prod.splits option.splits)


text \<open>With every file opened, the texts written are the header and the joined blocks of each chunk.\<close>

lemma write_chunks_texts:
  "\<forall>p \<in> set plan. open_w env (target_file out (fst p)) = None \<Longrightarrow>
   map snd (fst (snd (write_chunks env out plan k))) =
     map (\<lambda>(i, t, blks). header env t i @ concat blks) (List.enumerate k plan)"
proof (induction plan arbitrary: k)
  case Nil
  then show ?case by simp
next
  case (Cons p plan)
  obtain t blks where p: "p = (t, blks)" by (cases p)
  from Cons.prems have "\<forall>p \<in> set plan. open_w env (target_file out (fst p)) = None" by simp
  from Cons.IH [OF this, of "k + 1"] Cons.prems show ?case
    by (auto simp: p split: prod.splits)
qed

lemma export_texts:
  assumes "load_json env = Inr data"
    and "py_get data ''requests'' (JArr []) = Inr requests"
    and "truthy requests"
    and "py_iter requests = Inr reqs"
    and "build_blocks (str_of env) reqs = Inr blocks"
    and "\<forall>p \<in> set (split_blocks m blocks). open_w env (target_file out (fst p)) = None"
  shows "map snd (files (export_to_markdown env out m)) =
           map (\<lambda>(i, t, blks). header env t i @ concat blks)
             (List.enumerate 0 (split_blocks m blocks))"
proof -
  obtain cr wr r where w: "write_chunks env out (split_blocks m blocks) 0 = (cr, wr, r)"
    by (cases "write_chunks env out (split_blocks m blocks) 0") auto
  from write_chunks_ok [OF assms(6), of 0] w have "r = None" by simp
  moreover from write_chunks_texts [OF assms(6), of 0] w
  have "map snd wr = map (\<lambda>(i, t, blks). header env t i @ concat blks)
             (List.enumerate 0 (split_blocks m blocks))" by simp
  ultimately show ?thesis using assms(1-5) w
    by (simp add: export_to_markdown_def export_body_def)
qed

section \<open>Paging\<close>

lemma py_slice_nonneg:
  "0 \<le> s \<Longrightarrow> 0 \<le> e \<Longrightarrow> py_slice xs s e = take (nat e - nat s) (drop (nat s) xs)"
proof -
  assume s: "0 \<le> s" and e: "0 \<le> e"
  let ?n = "int (length xs)"
  have "py_slice xs s e = take (nat (min e ?n - min s ?n)) (drop (nat (min s ?n)) xs)"
    using s e by (simp add: py_slice_def Let_def)
  also have "\<dots> = take (nat e - nat s) (drop (nat s) xs)"
  proof (cases "s \<le> ?n")
    case True
    then have m: "min s ?n = s" by simp
    show ?thesis
    proof (cases "e \<le> ?n")
      case True
      then show ?thesis using s e by (simp add: m nat_diff_distrib')
    next
      case False
      then have "min e ?n = ?n" by simp
      moreover have "length (drop (nat s) xs) \<le> nat (?n - s)" using s by simp
      moreover have "length (drop (nat s) xs) \<le> nat e - nat s" using False s e by simp
      ultimately show ?thesis by (simp add: m)
    qed
  next
    case False
    then have "drop (nat s) xs = []" and "drop (nat (min s ?n)) xs = []" using s by simp_all
    then show ?thesis by simp
  qed
  finally show ?thesis .
qed

lemma window_page:
  "window (page_results rs off lmt fl) = (if fl then rs else py_slice rs off (off + lmt))"
  by (simp add: window_def page_results_def Let_def)

lemma remaining_page:
  "remaining (page_results rs off lmt fl) =
     (if \<not> fl \<and> int (length rs) > off + lmt then int (length rs) - (off + lmt) else 0)"
  by (simp add: remaining_def page_results_def Let_def)


text \<open>The viewer on a loaded run whose entries it can print.\<close>

lemma show_entry_ok: "entry_ok res \<Longrightarrow> show_entry it res = None"
  by (cases res) (auto simp: entry_ok_def show_entry_def py_index_def)

lemma show_entries_ok: "\<forall>x \<in> set xs. entry_ok x \<Longrightarrow> show_entries it xs = None"
  by (induction xs) (simp_all add: show_entry_ok)

lemma view_body_list:
  assumes "map_of kv ''metadata'' = Some (JObj mkv)"
    and "map_of mkv ''tool'' = Some t"
    and "map_of kv ''results'' = Some (JArr xs)"
    and "\<forall>x \<in> set (window (page_results xs (offset va) (limit va) (full va))). entry_ok x"
  shows "view_body it va (JObj kv) = Inr (page_results xs (offset va) (limit va) (full va))"
  using assms show_entries_ok [OF assms(4), of it]
  by (simp add: view_body_def py_index_def py_len_def py_iter_def)

lemma view_main_loaded:
  assumes "\<not> list_flag va" and "run_id va = Some r" and "r \<noteq> []" and "ld r = Inr data"
  shows "view_main it va runs ld =
           (case view_body it va data of
              Inl e \<Rightarrow> \<lparr>exit_code = 1, stderr = [''Error loading run: '' @ exn_msg e],
                        screen = NoScreen\<rparr>
            | Inr page \<Rightarrow> \<lparr>exit_code = 0, stderr = [], screen = Page page\<rparr>)"
  using assms by (simp add: view_main_def)

section \<open>The producer loops\<close>

lemma find_loop_count:
  "find_loop resolve xs results count = Inr (rs, c) \<Longrightarrow> count = length results \<Longrightarrow> c = length rs"
proof (induction xs arbitrary: results count)
  case Nil
  then show ?case by auto
next
  case (Cons x xs)
  show ?case
  proof (cases x)
    case (Inl e)
    with Cons.prems show ?thesis by simp
  next
    case (Inr item)
    with Cons.prems have "find_loop resolve xs (results @ [resolve item]) (count + 1) = Inr (rs, c)"
      by simp
    then show ?thesis by (rule Cons.IH) (simp add: Cons.prems)
  qed
qed

lemma grep_loop_inv:
  "grep_loop resolve xs results count fs = Inr (rs, c, fs') \<Longrightarrow>
   count = length results \<Longrightarrow> fs = set (map m_path results) \<Longrightarrow>
   c = length rs \<and> fs' = set (map m_path rs)"
proof (induction xs arbitrary: results count fs)
  case Nil
  then show ?case by auto
next
  case (Cons x xs)
  show ?case
  proof (cases x)
    case (Inl e)
    with Cons.prems show ?thesis by simp
  next
    case (Inr hit)
    let ?entry = "\<lparr>m_path = resolve (hit_path hit), m_line_number = hit_line_number hit,
                   m_content = hit_content hit\<rparr>"
    from Cons.prems Inr have
      "grep_loop resolve xs (results @ [?entry]) (count + 1) (insert (resolve (hit_path hit)) fs)
       = Inr (rs, c, fs')" by simp
    then show ?thesis by (rule Cons.IH) (simp_all add: Cons.prems)
  qed
qed


section \<open>The examples evaluated\<close>

lemma example_build: "build_blocks (\<lambda>v. []) example_requests = Inr example_blocks"
  by (simp add: example_requests_def example_blocks_def make_block_def py_get_def py_iter_def
      fstr_def strip_nonempty_def is_space_def user_heading_def assistant_heading_def separator_def)

lemma example_lines: "map count_nl example_blocks = [5, 8, 5]"
  by (simp add: example_blocks_def count_nl_def nl_def)

lemma example_chunks_13:
  "chunks_of 13 example_blocks = [[example_blocks ! 0, example_blocks ! 1], [example_blocks ! 2]]"
  by (simp add: example_blocks_def chunks_of_def split_blocks_def total_lines_def count_nl_def nl_def)

lemma example_chunks_4:
  "chunks_of 4 example_blocks = [[example_blocks ! 0], [example_blocks ! 1], [example_blocks ! 2]]"
  by (simp add: example_blocks_def chunks_of_def split_blocks_def total_lines_def count_nl_def nl_def)

lemma example_chunks_18:
  "chunks_of 18 example_blocks = [example_blocks]"
  by (simp add: example_blocks_def chunks_of_def split_blocks_def total_lines_def count_nl_def nl_def)

lemma example_find_run:
  "persist_call (find_main example_find_args example_find_env example_resolve)
     = Some (example_find_metadata, [''/repo/a.txt'', ''/repo/b.txt''])"
  by (simp add: find_main_def example_find_args_def example_find_env_def example_resolve_def
      example_find_metadata_def root_path_def)

lemma example_grep_run:
  "persist_call (grep_main example_grep_args example_grep_env example_resolve)
     = Some (example_grep_metadata, example_grep_results)"
  by (simp add: grep_main_def example_grep_args_def example_grep_env_def example_resolve_def
      example_grep_metadata_def example_grep_results_def root_path_def)

lemma fmt_03d_values:
  "fmt_03d (Suc 0) = ''001''" "fmt_03d 1 = ''001''" "fmt_03d 2 = ''002''"
  "fmt_03d (Suc (Suc 0)) = ''002''" "fmt_03d 7 = ''007''"
  by code_simp+

lemma digits_values: "digits 1 = ''1''" "digits (Suc 0) = ''1''" "digits 2 = ''2''" "digits 7 = ''7''"
  by code_simp+

lemma example_denied_body:
  "export_body denied_env (chat_out ''bundle'') 13 =
     ([(\<lparr>dir = ''bundle'', fname = ''vscode_chat_history_part001.md''\<rparr>,
        header denied_env (Part 1) 0 @ example_blocks ! 0 @ example_blocks ! 1)],
      Inl (Exn ''PermissionError'' ''Permission denied''))"
  by code_simp

lemma example_view_ok:
  "view_main example_interp example_view_args example_list_runs example_load_results =
     \<lparr>exit_code = 0, stderr = [],
      screen = Page \<lparr>shown = Some (1, 2),
                     items = [(1, JStr ''/repo/a.txt''), (2, JStr ''/repo/b.txt'')],
                     and_more = None\<rparr>\<rparr>"
  by code_simp

section \<open>The chunk splitter\<close>

text \<open>
  Claim C1. The export runs the splitter on the blocks built from a non-empty request list
  (line 75 returns before any block is built otherwise). For every such block sequence and
  every limit: the chunks, concatenated in order, are the block sequence; no chunk is empty;
  every chunk obeys the weight constraint (its lines fit the limit, or it is one block);
  and no partition of the sequence into consecutive groups obeying that constraint has
  fewer groups.
\<close>

theorem chunks_partition_minimal:
  assumes "build_blocks f reqs = Inr blocks" and "reqs \<noteq> []"
  shows "concat (chunks_of m blocks) = blocks
       \<and> [] \<notin> set (chunks_of m blocks)
       \<and> (\<forall>c \<in> set (chunks_of m blocks). int (total_lines c) \<le> m \<or> length c \<le> 1)
       \<and> (\<forall>cs. concat cs = blocks \<and> (\<forall>c \<in> set cs. int (total_lines c) \<le> m \<or> length c \<le> 1)
               \<longrightarrow> length (chunks_of m blocks) \<le> length cs)"
proof -
  from assms have ne: "blocks \<noteq> []"
    using build_blocks_length [OF assms(1)] by auto
  have pos: "\<forall>b \<in> set blocks. 0 < count_nl b"
    using build_blocks_lines [OF assms(1)] by auto
  have "\<forall>c \<in> set (chunks_of m blocks). int (total_lines c) \<le> m \<or> length c \<le> 1"
    using chunks_of_fits [OF pos, of m] by (simp add: fits_def)
  moreover have "\<forall>cs. concat cs = blocks \<and> (\<forall>c \<in> set cs. int (total_lines c) \<le> m \<or> length c \<le> 1)
               \<longrightarrow> length (chunks_of m blocks) \<le> length cs"
    using chunks_of_minimal [OF ne, of _ m] by (simp add: fits_def)
  ultimately show ?thesis
    using chunks_of_concat [of m blocks] chunks_of_nonempty [OF ne, of m] by blast
qed

theorem chunks_partition_minimal_witness:
  "build_blocks (\<lambda>v. []) example_requests = Inr example_blocks
   \<and> example_requests \<noteq> []
   \<and> concat (chunks_of 13 example_blocks) = example_blocks
   \<and> [] \<notin> set (chunks_of 13 example_blocks)
   \<and> concat [[example_blocks ! 0], [example_blocks ! 1, example_blocks ! 2]] = example_blocks
   \<and> length [example_blocks ! 0] \<le> 1
   \<and> int (total_lines [example_blocks ! 1, example_blocks ! 2]) \<le> 13
   \<and> length (chunks_of 13 example_blocks) \<le> length [[example_blocks ! 0], [example_blocks ! 1, example_blocks ! 2]]"
proof -
  have ne: "example_requests \<noteq> []" by (simp add: example_requests_def)
  have part: "concat [[example_blocks ! 0], [example_blocks ! 1, example_blocks ! 2]] = example_blocks"
    by (simp add: example_blocks_def)
  have ok: "\<forall>c \<in> set [[example_blocks ! 0], [example_blocks ! 1, example_blocks ! 2]].
         int (total_lines c) \<le> 13 \<or> length c \<le> 1"
    by (simp add: example_blocks_def total_lines_def count_nl_def nl_def)
  have ok': "length [example_blocks ! 0] \<le> 1
             \<and> int (total_lines [example_blocks ! 1, example_blocks ! 2]) \<le> 13"
    by (simp add: example_blocks_def total_lines_def count_nl_def nl_def)
  from chunks_partition_minimal [OF example_build ne, of 13] part ok ok' example_build ne
  show ?thesis by blast
qed

text \<open>
  Claim C2. For every block sequence the export builds and every limit: a chunk is closed
  before a block only when the lines gathered so far are more than 0 and, with the lines
  of that block, more than the limit; inside a chunk that test held before none of its
  later blocks; so every chunk has at most the limit's lines unless it is exactly one
  block whose own lines exceed the limit.
\<close>

theorem chunk_closed_exactly_when:
  assumes "build_blocks f reqs = Inr blocks" and "reqs \<noteq> []"
  shows "(\<forall>j. Suc j < length (chunks_of m blocks) \<longrightarrow>
            chunks_of m blocks ! Suc j \<noteq> [] \<and>
            0 < total_lines (chunks_of m blocks ! j) \<and>
            m < int (total_lines (chunks_of m blocks ! j) + count_nl (hd (chunks_of m blocks ! Suc j))))
       \<and> (\<forall>c \<in> set (chunks_of m blocks). \<forall>k. 0 < k \<and> k < length c \<longrightarrow>
            \<not> (0 < total_lines (take k c) \<and> m < int (total_lines (take k c) + count_nl (c ! k))))
       \<and> (\<forall>c \<in> set (chunks_of m blocks).
            int (total_lines c) \<le> m \<or> (\<exists>b. c = [b] \<and> m < int (count_nl b)))"
proof -
  from assms have ne: "blocks \<noteq> []"
    using build_blocks_length [OF assms(1)] by auto
  have pos: "\<forall>b \<in> set blocks. 0 < count_nl b"
    using build_blocks_lines [OF assms(1)] by auto
  have a: "\<forall>j. Suc j < length (chunks_of m blocks) \<longrightarrow>
            chunks_of m blocks ! Suc j \<noteq> [] \<and>
            0 < total_lines (chunks_of m blocks ! j) \<and>
            m < int (total_lines (chunks_of m blocks ! j) + count_nl (hd (chunks_of m blocks ! Suc j)))"
  proof (intro allI impI)
    fix j assume j: "Suc j < length (chunks_of m blocks)"
    then have "chunks_of m blocks ! Suc j \<in> set (chunks_of m blocks)" by simp
    then have "chunks_of m blocks ! Suc j \<noteq> []"
      using chunks_of_nonempty [OF ne, of m] by metis
    then show "chunks_of m blocks ! Suc j \<noteq> [] \<and>
            0 < total_lines (chunks_of m blocks ! j) \<and>
            m < int (total_lines (chunks_of m blocks ! j) + count_nl (hd (chunks_of m blocks ! Suc j)))"
      using chunks_of_closed [OF j] by simp
  qed
  have b: "\<forall>c \<in> set (chunks_of m blocks). \<forall>k. 0 < k \<and> k < length c \<longrightarrow>
            \<not> (0 < total_lines (take k c) \<and> m < int (total_lines (take k c) + count_nl (c ! k)))"
    using chunks_of_inside [of m blocks] unfolding no_close_inside_def by blast
  have c: "\<forall>c \<in> set (chunks_of m blocks).
            int (total_lines c) \<le> m \<or> (\<exists>b. c = [b] \<and> m < int (count_nl b))"
  proof
    fix c assume c: "c \<in> set (chunks_of m blocks)"
    show "int (total_lines c) \<le> m \<or> (\<exists>b. c = [b] \<and> m < int (count_nl b))"
    proof (cases "int (total_lines c) \<le> m")
      case True
      then show ?thesis by simp
    next
      case False
      have "fits m c" using chunks_of_fits [OF pos, of m] c by blast
      with False have "length c \<le> 1" by (simp add: fits_def)
      moreover have "c \<noteq> []" using chunks_of_nonempty [OF ne, of m] c by metis
      ultimately obtain b where "c = [b]" by (cases c) auto
      then show ?thesis using False by simp
    qed
  qed
  from a b c show ?thesis by blast
qed

theorem chunk_closed_exactly_when_witness:
  "build_blocks (\<lambda>v. []) example_requests = Inr example_blocks
   \<and> example_requests \<noteq> []
   \<and> Suc 0 < length (chunks_of 13 example_blocks)
   \<and> chunks_of 13 example_blocks ! Suc 0 \<noteq> []
   \<and> 0 < total_lines (chunks_of 13 example_blocks ! 0)
   \<and> 13 < int (total_lines (chunks_of 13 example_blocks ! 0) +
                count_nl (hd (chunks_of 13 example_blocks ! Suc 0)))
   \<and> [example_blocks ! 0, example_blocks ! 1] \<in> set (chunks_of 13 example_blocks)
   \<and> (0::nat) < 1 \<and> 1 < length [example_blocks ! 0, example_blocks ! 1]
   \<and> \<not> (0 < total_lines (take 1 [example_blocks ! 0, example_blocks ! 1]) \<and>
          13 < int (total_lines (take 1 [example_blocks ! 0, example_blocks ! 1]) +
                    count_nl ([example_blocks ! 0, example_blocks ! 1] ! 1)))
   \<and> int (total_lines [example_blocks ! 0, example_blocks ! 1]) \<le> 13"
proof -
  have ne: "example_requests \<noteq> []" by (simp add: example_requests_def)
  note inst = chunk_closed_exactly_when [OF example_build ne, of 13]
  have len: "Suc 0 < length (chunks_of 13 example_blocks)" by (simp add: example_chunks_13)
  have mem: "[example_blocks ! 0, example_blocks ! 1] \<in> set (chunks_of 13 example_blocks)"
    by (simp add: example_chunks_13)
  from inst len have closed:
    "chunks_of 13 example_blocks ! Suc 0 \<noteq> []
     \<and> 0 < total_lines (chunks_of 13 example_blocks ! 0)
     \<and> 13 < int (total_lines (chunks_of 13 example_blocks ! 0) +
                  count_nl (hd (chunks_of 13 example_blocks ! Suc 0)))"
    by blast
  have k: "(0::nat) < 1 \<and> 1 < length [example_blocks ! 0, example_blocks ! 1]" by simp
  from inst mem k have inside:
    "\<not> (0 < total_lines (take 1 [example_blocks ! 0, example_blocks ! 1]) \<and>
          13 < int (total_lines (take 1 [example_blocks ! 0, example_blocks ! 1]) +
                    count_nl ([example_blocks ! 0, example_blocks ! 1] ! 1)))"
    by blast
  have fit: "int (total_lines [example_blocks ! 0, example_blocks ! 1]) \<le> 13"
    by (simp add: example_blocks_def total_lines_def count_nl_def nl_def)
  from example_build ne len closed mem k inside fit show ?thesis by blast
qed

text \<open>
  Claim C3. For every block sequence the export builds, a block whose own lines exceed the
  limit is a chunk by itself, at its own place in the sequence: the chunks before it hold
  exactly the blocks before it, and all chunks together are the block sequence.
\<close>

theorem heavy_block_alone:
  assumes "build_blocks f reqs = Inr blocks" and "reqs \<noteq> []"
    and "i < length blocks" and "m < int (count_nl (blocks ! i))"
  shows "concat (chunks_of m blocks) = blocks
       \<and> (\<exists>j < length (chunks_of m blocks).
             chunks_of m blocks ! j = [blocks ! i] \<and> length (concat (take j (chunks_of m blocks))) = i)"
proof -
  let ?cs = "chunks_of m blocks"
  have cc: "concat ?cs = blocks" by (rule chunks_of_concat)
  have pos: "\<forall>b \<in> set blocks. 0 < count_nl b"
    using build_blocks_lines [OF assms(1)] by auto
  from assms(3) cc have "i < length (concat ?cs)" by simp
  from concat_position [OF this] obtain j k where
    jk: "j < length ?cs" "k < length (?cs ! j)" "length (concat (take j ?cs)) + k = i"
        "?cs ! j ! k = concat ?cs ! i" by blast
  have mem: "?cs ! j \<in> set ?cs" using jk(1) by simp
  have "blocks ! i \<in> set (?cs ! j)" using jk(2,4) cc by (metis nth_mem)
  then have "count_nl (blocks ! i) \<le> total_lines (?cs ! j)" by (rule count_nl_le_total)
  with assms(4) have "\<not> int (total_lines (?cs ! j)) \<le> m" by linarith
  moreover have "fits m (?cs ! j)" using chunks_of_fits [OF pos, of m] mem by blast
  ultimately have "length (?cs ! j) \<le> 1" by (simp add: fits_def)
  with jk(2) have k0: "k = 0" and len: "length (?cs ! j) = 1" by auto
  from len obtain b where b: "?cs ! j = [b]" by (cases "?cs ! j") auto
  with jk(4) k0 cc have "b = blocks ! i" by simp
  with b jk(1,3) k0 cc show ?thesis by auto
qed

theorem heavy_block_alone_witness:
  "build_blocks (\<lambda>v. []) example_requests = Inr example_blocks
   \<and> example_requests \<noteq> []
   \<and> 1 < length example_blocks
   \<and> 4 < int (count_nl (example_blocks ! 1))
   \<and> concat (chunks_of 4 example_blocks) = example_blocks
   \<and> (\<exists>j < length (chunks_of 4 example_blocks).
         chunks_of 4 example_blocks ! j = [example_blocks ! 1] \<and>
         length (concat (take j (chunks_of 4 example_blocks))) = 1)"
proof -
  have ne: "example_requests \<noteq> []" by (simp add: example_requests_def)
  have i: "1 < length example_blocks" by (simp add: example_blocks_def)
  have heavy: "4 < int (count_nl (example_blocks ! 1))"
    by (simp add: example_blocks_def count_nl_def nl_def)
  from heavy_block_alone [OF example_build ne i heavy] example_build ne i heavy
  show ?thesis by blast
qed

section \<open>The result viewer: paging\<close>

text \<open>
  Claim C4. Without \<open>--full\<close>, for a non-negative offset and a positive limit, the viewer
  shows \<open>results[offset : offset + limit]\<close> clipped to the list, and announces
  \<open>max(0, len(results) - (offset + limit))\<close> further entries; an offset at or beyond the end
  gives an empty window and nothing further; for the results 0 to 24, offset 10 and limit
  10 the window is 10 to 19 and 5 remain. On a loaded run (a dict with its \<open>metadata\<close>,
  the \<open>tool\<close> in it, and a list of \<open>results\<close>) the tool shows that page and ends with
  status 0 whenever it can print the entries of the window; with the offset at or beyond
  the end the window is empty, so this is no error whatever the entries are.
\<close>

theorem page_window:
  assumes "0 \<le> off" and "0 < lmt"
  shows "window (page_results rs off lmt False) = take (nat lmt) (drop (nat off) rs)
       \<and> remaining (page_results rs off lmt False) = max 0 (int (length rs) - (off + lmt))
       \<and> (int (length rs) \<le> off \<longrightarrow>
            window (page_results rs off lmt False) = [] \<and> remaining (page_results rs off lmt False) = 0)
       \<and> window (page_results [0..24] 10 10 False) = [10..19]
       \<and> remaining (page_results [0..24] 10 10 False) = 5
       \<and> (\<not> list_flag va \<and> run_id va = Some r \<and> r \<noteq> [] \<and> ld r = Inr (JObj kv) \<and>
          map_of kv ''metadata'' = Some (JObj mkv) \<and> map_of mkv ''tool'' = Some t \<and>
          map_of kv ''results'' = Some (JArr xs) \<and>
          (\<forall>x \<in> set (window (page_results xs (offset va) (limit va) (full va))). entry_ok x)
            \<longrightarrow> view_main it va runs ld =
                \<lparr>exit_code = 0, stderr = [],
                 screen = Page (page_results xs (offset va) (limit va) (full va))\<rparr>)
       \<and> (\<not> list_flag va \<and> run_id va = Some r \<and> r \<noteq> [] \<and> ld r = Inr (JObj kv) \<and>
          map_of kv ''metadata'' = Some (JObj mkv) \<and> map_of mkv ''tool'' = Some t \<and>
          map_of kv ''results'' = Some (JArr xs) \<and>
          \<not> full va \<and> 0 \<le> offset va \<and> 0 < limit va \<and> int (length xs) \<le> offset va
            \<longrightarrow> view_main it va runs ld =
                \<lparr>exit_code = 0, stderr = [],
                 screen = Page (page_results xs (offset va) (limit va) False)\<rparr>
              \<and> window (page_results xs (offset va) (limit va) False) = []
              \<and> remaining (page_results xs (offset va) (limit va) False) = 0)"
proof -
  have w: "window (page_results rs off lmt False) = take (nat lmt) (drop (nat off) rs)"
    if "0 \<le> off" "0 < lmt" for rs :: "'b list" and off lmt
    using that by (simp add: window_page py_slice_nonneg nat_add_distrib)
  have r: "remaining (page_results rs off lmt False) = max 0 (int (length rs) - (off + lmt))"
    for rs :: "'b list" and off lmt
    by (simp add: remaining_page)
  have e: "int (length rs) \<le> off \<longrightarrow>
            window (page_results rs off lmt False) = [] \<and> remaining (page_results rs off lmt False) = 0"
    if "0 \<le> off" "0 < lmt" for rs :: "'b list" and off lmt
    using that by (auto simp: w r)
  have s1: "window (page_results [0..24] 10 10 False) = [10..19]"
    by code_simp
  have s2: "remaining (page_results [0..24] 10 10 False) = 5"
    by code_simp
  have v: "\<not> list_flag va \<and> run_id va = Some r \<and> r \<noteq> [] \<and> ld r = Inr (JObj kv) \<and>
          map_of kv ''metadata'' = Some (JObj mkv) \<and> map_of mkv ''tool'' = Some t \<and>
          map_of kv ''results'' = Some (JArr xs) \<and>
          (\<forall>x \<in> set (window (page_results xs (offset va) (limit va) (full va))). entry_ok x)
            \<longrightarrow> view_main it va runs ld =
                \<lparr>exit_code = 0, stderr = [],
                 screen = Page (page_results xs (offset va) (limit va) (full va))\<rparr>"
    by (auto simp: view_main_loaded view_body_list)
  have v0: "\<not> list_flag va \<and> run_id va = Some r \<and> r \<noteq> [] \<and> ld r = Inr (JObj kv) \<and>
          map_of kv ''metadata'' = Some (JObj mkv) \<and> map_of mkv ''tool'' = Some t \<and>
          map_of kv ''results'' = Some (JArr xs) \<and>
          \<not> full va \<and> 0 \<le> offset va \<and> 0 < limit va \<and> int (length xs) \<le> offset va
            \<longrightarrow> view_main it va runs ld =
                \<lparr>exit_code = 0, stderr = [],
                 screen = Page (page_results xs (offset va) (limit va) False)\<rparr>
              \<and> window (page_results xs (offset va) (limit va) False) = []
              \<and> remaining (page_results xs (offset va) (limit va) False) = 0"
  proof (intro impI)
    assume h: "\<not> list_flag va \<and> run_id va = Some r \<and> r \<noteq> [] \<and> ld r = Inr (JObj kv) \<and>
          map_of kv ''metadata'' = Some (JObj mkv) \<and> map_of mkv ''tool'' = Some t \<and>
          map_of kv ''results'' = Some (JArr xs) \<and>
          \<not> full va \<and> 0 \<le> offset va \<and> 0 < limit va \<and> int (length xs) \<le> offset va"
    then have nf: "full va = False" by simp
    from h e [of "offset va" "limit va" xs]
    have emp: "window (page_results xs (offset va) (limit va) False) = []
               \<and> remaining (page_results xs (offset va) (limit va) False) = 0" by simp
    then have "\<forall>x \<in> set (window (page_results xs (offset va) (limit va) (full va))). entry_ok x"
      by (simp add: nf)
    with h v have "view_main it va runs ld =
                \<lparr>exit_code = 0, stderr = [],
                 screen = Page (page_results xs (offset va) (limit va) (full va))\<rparr>" by blast
    with emp show "view_main it va runs ld =
                \<lparr>exit_code = 0, stderr = [],
                 screen = Page (page_results xs (offset va) (limit va) False)\<rparr>
              \<and> window (page_results xs (offset va) (limit va) False) = []
              \<and> remaining (page_results xs (offset va) (limit va) False) = 0"
      by (simp add: nf)
  qed
  from w [OF assms] r e [OF assms] s1 s2 v v0 show ?thesis by blast
qed

theorem page_window_witness:
  "(0::int) \<le> 20 \<and> (0::int) < 10
   \<and> window (page_results [0..24] 20 10 False) = [20..24]
   \<and> remaining (page_results [0..24] 20 10 False) = 0
   \<and> int (length [0..24]) \<le> 30
   \<and> window (page_results [0..24] 30 10 False) = []
   \<and> remaining (page_results [0..24] 30 10 False) = 0
   \<and> \<not> list_flag example_view_args
   \<and> run_id example_view_args = Some ''20250101_000000_txt''
   \<and> example_load_results ''20250101_000000_txt'' = Inr example_run
   \<and> entry_ok (JStr ''/repo/a.txt'') \<and> entry_ok (JStr ''/repo/b.txt'')
   \<and> view_main example_interp example_view_args example_list_runs example_load_results =
       \<lparr>exit_code = 0, stderr = [],
        screen = Page (page_results [JStr ''/repo/a.txt'', JStr ''/repo/b.txt''] 0 10 False)\<rparr>
   \<and> run_id (example_view_args\<lparr>run_id := Some ''20250102_000000_os'', offset := 1\<rparr>)
       = Some ''20250102_000000_os''
   \<and> example_load_results ''20250102_000000_os'' = Inr malformed_run
   \<and> \<not> entry_ok (JObj [(''path'', JStr ''/repo/a.py''), (''content'', JStr ''import os'')])
   \<and> int (length [JObj [(''path'', JStr ''/repo/a.py''), (''content'', JStr ''import os'')]]) \<le> 1
   \<and> view_main example_interp
         (example_view_args\<lparr>run_id := Some ''20250102_000000_os'', offset := 1\<rparr>)
         example_list_runs example_load_results =
       \<lparr>exit_code = 0, stderr = [],
        screen = Page (page_results
                   [JObj [(''path'', JStr ''/repo/a.py''), (''content'', JStr ''import os'')]]
                   1 10 False)\<rparr>
   \<and> window (page_results
         [JObj [(''path'', JStr ''/repo/a.py''), (''content'', JStr ''import os'')]] 1 10 False) = []"
proof -
  let ?bad = "JObj [(''path'', JStr ''/repo/a.py''), (''content'', JStr ''import os'')]"
  let ?va2 = "example_view_args\<lparr>run_id := Some ''20250102_000000_os'', offset := 1\<rparr>"
  have a: "(0::int) \<le> 20" and b: "(0::int) < 10" and c: "(0::int) \<le> 30" by simp_all
  have d: "take (nat 10) (drop (nat 20) [0..24]) = [20..24]" by code_simp
  have l: "int (length [0..24]) = 25" by code_simp
  have h: "\<not> list_flag example_view_args
           \<and> run_id example_view_args = Some ''20250101_000000_txt''
           \<and> ''20250101_000000_txt'' \<noteq> []
           \<and> example_load_results ''20250101_000000_txt'' = Inr example_run"
    by (simp add: example_view_args_def example_load_results_def)
  have o: "offset example_view_args = 0 \<and> limit example_view_args = 10 \<and> \<not> full example_view_args"
    by (simp add: example_view_args_def)
  have ok: "entry_ok (JStr ''/repo/a.txt'') \<and> entry_ok (JStr ''/repo/b.txt'')"
    by (simp add: entry_ok_def)
  have wn: "window (page_results [JStr ''/repo/a.txt'', JStr ''/repo/b.txt''] 0 10 False)
            = [JStr ''/repo/a.txt'', JStr ''/repo/b.txt'']"
    by code_simp
  note inst1 = page_window [OF a b, where rs = "[0..24]" and va = example_view_args
      and r = "''20250101_000000_txt''" and ld = example_load_results
      and kv = "[(''metadata'', JObj [(''tool'', JStr ''ai_agent_tool_find''),
                   (''query'', JStr ''*.txt''), (''count'', JInt 2)]),
                 (''results'', JArr [JStr ''/repo/a.txt'', JStr ''/repo/b.txt''])]"
      and mkv = "[(''tool'', JStr ''ai_agent_tool_find''), (''query'', JStr ''*.txt''),
                  (''count'', JInt 2)]"
      and t = "JStr ''ai_agent_tool_find''"
      and xs = "[JStr ''/repo/a.txt'', JStr ''/repo/b.txt'']"
      and runs = example_list_runs and it = example_interp]
  have r1: "window (page_results [0..24] 20 10 False) = [20..24]
            \<and> remaining (page_results [0..24] 20 10 False) = 0"
    using inst1 d l by simp
  have r2: "view_main example_interp example_view_args example_list_runs example_load_results =
       \<lparr>exit_code = 0, stderr = [],
        screen = Page (page_results [JStr ''/repo/a.txt'', JStr ''/repo/b.txt''] 0 10 False)\<rparr>"
    using inst1 h o ok wn by (simp add: example_run_def)
  note inst2 = page_window [OF c b, where rs = "[0..24]" and va = ?va2
      and r = "''20250102_000000_os''" and ld = example_load_results
      and kv = "[(''metadata'', JObj [(''tool'', JStr ''ai_agent_tool_grep'')]),
                 (''results'', JArr [?bad])]"
      and mkv = "[(''tool'', JStr ''ai_agent_tool_grep'')]"
      and t = "JStr ''ai_agent_tool_grep''"
      and xs = "[?bad]"
      and runs = example_list_runs and it = example_interp]
  have r3: "window (page_results [0..24] 30 10 False) = []
            \<and> remaining (page_results [0..24] 30 10 False) = 0"
    using inst2 l by simp
  have h2: "\<not> list_flag ?va2 \<and> run_id ?va2 = Some ''20250102_000000_os''
            \<and> example_load_results ''20250102_000000_os'' = Inr malformed_run
            \<and> offset ?va2 = 1 \<and> limit ?va2 = 10 \<and> \<not> full ?va2"
    by (simp add: example_view_args_def example_load_results_def)
  have bad: "\<not> entry_ok ?bad" by (simp add: entry_ok_def)
  have r4: "view_main example_interp ?va2 example_list_runs example_load_results =
       \<lparr>exit_code = 0, stderr = [], screen = Page (page_results [?bad] 1 10 False)\<rparr>
       \<and> window (page_results [?bad] 1 10 False) = []"
    using inst2 h2 by (simp add: malformed_run_def)
  from a b l r1 r3 h ok r2 h2 bad r4 show ?thesis by simp
qed

text \<open>
  Claim C5, as the code has it. With \<open>--full\<close> the viewer shows the whole result list,
  whatever the offset, and announces nothing further.
\<close>

theorem full_shows_everything:
  "window (page_results rs off lmt True) = rs
   \<and> remaining (page_results rs off lmt True) = 0
   \<and> shown (page_results rs off lmt True) = None"
  by (simp add: window_page remaining_page) (simp add: page_results_def)

theorem full_ignores_offset:
  "window (page_results [10, 20, 30 :: int] 1 10 True) = [10, 20, 30]
   \<and> window (page_results [10, 20, 30 :: int] 1 10 True) \<noteq> drop 1 [10, 20, 30]
   \<and> int (length (window (page_results [10, 20, 30 :: int] 1 10 True))) \<noteq> int (length [10, 20, 30 :: int]) - 1"
  by (simp add: window_page)

section \<open>The producer tools: metadata\<close>

text \<open>
  Claim C7. Whenever the find tool or the grep tool reaches \<open>persist_results\<close>, the
  \<open>count\<close> of the metadata it hands over is the length of the result list it hands over.
\<close>

theorem persisted_count:
  "(persist_call (find_main args env resolve) = Some (md, rs) \<longrightarrow> md_count md = length rs)
   \<and> (persist_call (grep_main gargs genv gresolve) = Some (gmd, grs) \<longrightarrow> md_count gmd = length grs)"
proof
  show "persist_call (find_main args env resolve) = Some (md, rs) \<longrightarrow> md_count md = length rs"
  proof
    assume p: "persist_call (find_main args env resolve) = Some (md, rs)"
    then obtain results c where l: "find_loop resolve (found env) [] 0 = Inr (results, c)"
      by (cases "find_loop resolve (found env) [] 0") (auto simp: find_main_def)
    from find_loop_count [OF this] have "c = length results" by simp
    with p l show "md_count md = length rs"
      by (auto simp: find_main_def Let_def split: sum.splits option.splits)
  qed
next
  show "persist_call (grep_main gargs genv gresolve) = Some (gmd, grs) \<longrightarrow> md_count gmd = length grs"
  proof
    assume p: "persist_call (grep_main gargs genv gresolve) = Some (gmd, grs)"
    then obtain results c fs where l: "grep_loop gresolve (found genv) [] 0 {} = Inr (results, c, fs)"
      by (cases "grep_loop gresolve (found genv) [] 0 {}") (auto simp: grep_main_def)
    from grep_loop_inv [OF this] have "c = length results" by simp
    with p l show "md_count gmd = length grs"
      by (auto simp: grep_main_def Let_def split: sum.splits option.splits)
  qed
qed

theorem persisted_count_witness:
  "persist_call (find_main example_find_args example_find_env example_resolve)
     = Some (example_find_metadata, [''/repo/a.txt'', ''/repo/b.txt''])
   \<and> md_count example_find_metadata = length [''/repo/a.txt'', ''/repo/b.txt'']
   \<and> persist_call (grep_main example_grep_args example_grep_env example_resolve)
     = Some (example_grep_metadata, example_grep_results)
   \<and> md_count example_grep_metadata = length example_grep_results"
  using persisted_count [of example_find_args example_find_env example_resolve
      example_find_metadata "[''/repo/a.txt'', ''/repo/b.txt'']"
      example_grep_args example_grep_env example_resolve example_grep_metadata example_grep_results]
    example_find_run example_grep_run
  by blast

text \<open>
  Claim C9. Whenever the grep tool reaches \<open>persist_results\<close>, the \<open>file_count\<close> of the
  metadata is the number of distinct resolved paths among the match entries; it is at most
  \<open>count\<close>, and it is 0 exactly when \<open>count\<close> is 0.
\<close>

theorem grep_file_count:
  assumes "persist_call (grep_main args env resolve) = Some (md, rs)"
  shows "md_file_count md = card (set (map m_path rs))
       \<and> md_file_count md \<le> md_count md
       \<and> (md_file_count md = 0 \<longleftrightarrow> md_count md = 0)"
proof -
  from assms obtain results c fs where l: "grep_loop resolve (found env) [] 0 {} = Inr (results, c, fs)"
    by (cases "grep_loop resolve (found env) [] 0 {}") (auto simp: grep_main_def)
  from grep_loop_inv [OF this] have c: "c = length results" and fs: "fs = set (map m_path results)"
    by simp_all
  from assms l have "rs = results" and "md_count md = c" and "md_file_count md = card fs"
    by (auto simp: grep_main_def Let_def split: sum.splits option.splits)
  then have a: "md_file_count md = card (set (map m_path rs))" and b: "md_count md = length rs"
    using c fs by simp_all
  have "card (set (map m_path rs)) \<le> length (map m_path rs)" by (rule card_length)
  then have le: "md_file_count md \<le> md_count md" using a b by simp
  have "(card (set (map m_path rs)) = 0) = (rs = [])" by simp
  then have "(md_file_count md = 0) = (md_count md = 0)" using a b by simp
  with a le show ?thesis by blast
qed

theorem grep_file_count_witness:
  "persist_call (grep_main example_grep_args example_grep_env example_resolve)
     = Some (example_grep_metadata, example_grep_results)
   \<and> md_file_count example_grep_metadata = card (set (map m_path example_grep_results))
   \<and> md_file_count example_grep_metadata \<le> md_count example_grep_metadata
   \<and> (md_file_count example_grep_metadata = 0 \<longleftrightarrow> md_count example_grep_metadata = 0)"
  using grep_file_count [OF example_grep_run] example_grep_run by blast

section \<open>The chat export: files and failures\<close>

text \<open>
  Claim C6, as the code has it. When every write succeeds, the export names its files by
  the mode it is in: the numbered part files \<open>stem_partNNN.suffix\<close>, \<open>NNN\<close> counting the chunks
  from 1 and padded with zeros to three digits, when more than one chunk is produced or
  when the only chunk is a single block whose own lines exceed the limit; the plain output
  file otherwise. A part file is never the plain output file.
\<close>

theorem export_file_names:
  assumes "load_json env = Inr data"
    and "py_get data ''requests'' (JArr []) = Inr (JArr reqs)"
    and "reqs \<noteq> []"
    and "build_blocks (str_of env) reqs = Inr blocks"
    and "\<forall>p. open_w env p = None"
  shows "created_files (export_to_markdown env out m) =
           (if 1 < length (chunks_of m blocks) \<or> (\<exists>b. blocks = [b] \<and> m < int (count_nl b))
            then map (part_file out) [1 ..< Suc (length (chunks_of m blocks))]
            else [plain_file out])
         \<and> (\<forall>idx. part_file out idx \<noteq> plain_file out
                 \<and> length (fmt_03d idx) = max 3 (length (digits idx)))"
proof -
  have ne: "blocks \<noteq> []" using build_blocks_length [OF assms(4)] assms(3) by auto
  have pos: "\<forall>b \<in> set blocks. 0 < count_nl b" using build_blocks_lines [OF assms(4)] by auto
  have "created_files (export_to_markdown env out m) =
          map (\<lambda>p. target_file out (fst p)) (split_blocks m blocks)"
  proof -
    have "truthy (JArr reqs)" using assms(3) by simp
    moreover have "py_iter (JArr reqs) = Inr reqs" by (simp add: py_iter_def)
    moreover have "\<forall>p \<in> set (split_blocks m blocks). open_w env (target_file out (fst p)) = None"
      using assms(5) by simp
    ultimately show ?thesis
      using export_success [OF assms(1,2) _ _ assms(4)] by blast
  qed
  also have "\<dots> = map (target_file out) (map fst (split_blocks m blocks))" by simp
  also have "\<dots> = (if int (total_lines blocks) \<le> m then [plain_file out]
                    else map (part_file out) [1 ..< Suc (length (chunks_of m blocks))])"
    by (simp only: split_blocks_targets) (simp add: comp_def)
  finally show ?thesis
    using numbered_iff [OF pos ne, of m] part_file_not_plain length_fmt_03d by auto
qed

theorem export_file_names_witness:
  "load_json (example_env example_chat) = Inr example_chat
   \<and> py_get example_chat ''requests'' (JArr []) = Inr (JArr example_requests)
   \<and> example_requests \<noteq> []
   \<and> build_blocks (str_of (example_env example_chat)) example_requests = Inr example_blocks
   \<and> (\<forall>p. open_w (example_env example_chat) p = None)
   \<and> created_files (export_to_markdown (example_env example_chat) (chat_out ''bundle'') 13)
       = [\<lparr>dir = ''bundle'', fname = ''vscode_chat_history_part001.md''\<rparr>,
          \<lparr>dir = ''bundle'', fname = ''vscode_chat_history_part002.md''\<rparr>]
   \<and> created_files (export_to_markdown (example_env example_chat) (chat_out ''bundle'') 18)
       = [\<lparr>dir = ''bundle'', fname = ''vscode_chat_history.md''\<rparr>]
   \<and> part_file (chat_out ''bundle'') 7 \<noteq> plain_file (chat_out ''bundle'')
   \<and> length (fmt_03d 7) = 3"
proof -
  have l: "load_json (example_env example_chat) = Inr example_chat"
    by (simp add: example_env_def)
  have g: "py_get example_chat ''requests'' (JArr []) = Inr (JArr example_requests)"
    by (simp add: example_chat_def py_get_def)
  have ne: "example_requests \<noteq> []" by (simp add: example_requests_def)
  have b: "build_blocks (str_of (example_env example_chat)) example_requests = Inr example_blocks"
    using example_build by (simp add: example_env_def)
  have w: "\<forall>p. open_w (example_env example_chat) p = None" by (simp add: example_env_def)
  note inst = export_file_names [OF l g ne b w, of "chat_out ''bundle''"]
  have one: "example_blocks \<noteq> [b]" for b by (simp add: example_blocks_def)
  have c13: "created_files (export_to_markdown (example_env example_chat) (chat_out ''bundle'') 13)
       = [\<lparr>dir = ''bundle'', fname = ''vscode_chat_history_part001.md''\<rparr>,
          \<lparr>dir = ''bundle'', fname = ''vscode_chat_history_part002.md''\<rparr>]"
    using inst [of 13]
    by (simp add: example_chunks_13 part_file_def chat_out_def fmt_03d_values upt_rec [of 1] upt_rec [of 2])
  have c18: "created_files (export_to_markdown (example_env example_chat) (chat_out ''bundle'') 18)
       = [\<lparr>dir = ''bundle'', fname = ''vscode_chat_history.md''\<rparr>]"
    using inst [of 18] by (simp add: example_chunks_18 one plain_file_def chat_out_def)
  have p7: "part_file (chat_out ''bundle'') 7 \<noteq> plain_file (chat_out ''bundle'')
            \<and> length (fmt_03d 7) = 3"
    using inst [of 13] by (simp add: digits_values)
  from l g ne b w c13 c18 p7 show ?thesis by blast
qed

text \<open>
  One request whose message has 496 line breaks gives one block of 501 lines: with the
  limit 500 the export writes exactly one file, and it is numbered.
\<close>

theorem single_chunk_numbered:
  "created_files (export_to_markdown (example_env long_chat) (chat_out ''bundle'') default_chunk_size)
     = [\<lparr>dir = ''bundle'', fname = ''vscode_chat_history_part001.md''\<rparr>]"
  by code_simp

text \<open>
  Claim C10. When \<open>requests\<close> is absent or the empty list, \<open>export_to_markdown\<close> returns
  the empty list and writes no file. Whatever exception leaves the body, the function
  returns the empty list (after printing the message); and it returns a non-empty list
  only if no step failed: the file was loaded, \<open>requests\<close> could be read and iterated,
  every block was built and every file was opened.
\<close>

theorem export_empty_or_failed:
  "(load_json env = Inr (JObj kv) \<and>
      (map_of kv ''requests'' = None \<or> map_of kv ''requests'' = Some (JArr []))
      \<longrightarrow> export_to_markdown env out m = \<lparr>created_files = [], files = [], printed = []\<rparr>)
   \<and> (export_body env out m = (written, Inl e)
      \<longrightarrow> export_to_markdown env out m =
            \<lparr>created_files = [], files = written,
             printed = [''Failed to export chat: '' @ exn_msg e]\<rparr>)
   \<and> (created_files (export_to_markdown env out m) \<noteq> []
      \<longrightarrow> (\<exists>data requests reqs blocks.
             load_json env = Inr data \<and> py_get data ''requests'' (JArr []) = Inr requests \<and>
             truthy requests \<and> py_iter requests = Inr reqs \<and>
             build_blocks (str_of env) reqs = Inr blocks \<and>
             (\<forall>p \<in> set (split_blocks m blocks). open_w env (target_file out (fst p)) = None)))"
proof (intro conjI impI)
  assume "load_json env = Inr (JObj kv) \<and>
      (map_of kv ''requests'' = None \<or> map_of kv ''requests'' = Some (JArr []))"
  then show "export_to_markdown env out m = \<lparr>created_files = [], files = [], printed = []\<rparr>"
    by (auto simp: export_to_markdown_def export_body_def py_get_def)
next
  assume "export_body env out m = (written, Inl e)"
  then show "export_to_markdown env out m =
            \<lparr>created_files = [], files = written,
             printed = [''Failed to export chat: '' @ exn_msg e]\<rparr>"
    by (simp add: export_to_markdown_def export_failed_def)
next
  assume "created_files (export_to_markdown env out m) \<noteq> []"
  then show "\<exists>data requests reqs blocks.
             load_json env = Inr data \<and> py_get data ''requests'' (JArr []) = Inr requests \<and>
             truthy requests \<and> py_iter requests = Inr reqs \<and>
             build_blocks (str_of env) reqs = Inr blocks \<and>
             (\<forall>p \<in> set (split_blocks m blocks). open_w env (target_file out (fst p)) = None)"
    by (rule export_nonempty_only_if)
qed

theorem export_empty_or_failed_witness:
  "load_json (example_env (JObj [])) = Inr (JObj [])
   \<and> map_of [] ''requests'' = (None :: json option)
   \<and> export_to_markdown (example_env (JObj [])) (chat_out ''bundle'') 500
       = \<lparr>created_files = [], files = [], printed = []\<rparr>
   \<and> export_body denied_env (chat_out ''bundle'') 13 =
     ([(\<lparr>dir = ''bundle'', fname = ''vscode_chat_history_part001.md''\<rparr>,
        header denied_env (Part 1) 0 @ example_blocks ! 0 @ example_blocks ! 1)],
      Inl (Exn ''PermissionError'' ''Permission denied''))
   \<and> created_files (export_to_markdown denied_env (chat_out ''bundle'') 13) = []
   \<and> printed (export_to_markdown denied_env (chat_out ''bundle'') 13)
       = [''Failed to export chat: Permission denied'']
   \<and> created_files (export_to_markdown (example_env example_chat) (chat_out ''bundle'') 18) \<noteq> []
   \<and> (\<exists>data requests reqs blocks.
         load_json (example_env example_chat) = Inr data \<and>
         py_get data ''requests'' (JArr []) = Inr requests \<and>
         truthy requests \<and> py_iter requests = Inr reqs \<and>
         build_blocks (str_of (example_env example_chat)) reqs = Inr blocks \<and>
         (\<forall>p \<in> set (split_blocks 18 blocks).
            open_w (example_env example_chat) (target_file (chat_out ''bundle'') (fst p)) = None))"
proof -
  have l: "load_json (example_env (JObj [])) = Inr (JObj [])" by (simp add: example_env_def)
  have a: "map_of [] ''requests'' = (None :: json option)" by simp
  from export_empty_or_failed [of "example_env (JObj [])" "[]" "chat_out ''bundle''" 500] l a
  have r1: "export_to_markdown (example_env (JObj [])) (chat_out ''bundle'') 500
       = \<lparr>created_files = [], files = [], printed = []\<rparr>" by blast
  from export_empty_or_failed [of denied_env _ "chat_out ''bundle''" 13] example_denied_body
  have "export_to_markdown denied_env (chat_out ''bundle'') 13 =
          \<lparr>created_files = [],
           files = [(\<lparr>dir = ''bundle'', fname = ''vscode_chat_history_part001.md''\<rparr>,
                     header denied_env (Part 1) 0 @ example_blocks ! 0 @ example_blocks ! 1)],
           printed = [''Failed to export chat: '' @ exn_msg (Exn ''PermissionError'' ''Permission denied'')]\<rparr>"
    by blast
  then have r2: "created_files (export_to_markdown denied_env (chat_out ''bundle'') 13) = []
       \<and> printed (export_to_markdown denied_env (chat_out ''bundle'') 13)
           = [''Failed to export chat: Permission denied'']" by simp
  have ne: "created_files (export_to_markdown (example_env example_chat) (chat_out ''bundle'') 18) \<noteq> []"
    by code_simp
  from export_empty_or_failed [of "example_env example_chat" _ "chat_out ''bundle''" 18] ne
  have r3: "\<exists>data requests reqs blocks.
         load_json (example_env example_chat) = Inr data \<and>
         py_get data ''requests'' (JArr []) = Inr requests \<and>
         truthy requests \<and> py_iter requests = Inr reqs \<and>
         build_blocks (str_of (example_env example_chat)) reqs = Inr blocks \<and>
         (\<forall>p \<in> set (split_blocks 18 blocks).
            open_w (example_env example_chat) (target_file (chat_out ''bundle'') (fst p)) = None)"
    by blast
  from l a r1 example_denied_body r2 ne r3 show ?thesis by blast
qed

section \<open>Exit status of the tools\<close>




end
